theory Spec2Isabelle
  imports Complex_Main
begin

section \<open>Numbers and errors\<close>

text \<open>
  The library works on Python \<open>int\<close> and \<open>float\<close> scalars. They are idealised here as
  real numbers: rounding, overflow of numpy's fixed-width integers and the values
  \<open>nan\<close> and \<open>inf\<close> are not represented. An exception of the source is a value
  \<open>Inl e\<close>. Python's own division and power raise \<open>ZeroDivisionError\<close> on a zero
  divisor; numpy's functions never raise on numbers (outside their domain they warn and
  return \<open>nan\<close> or \<open>inf\<close>), so they are HOL's total functions, and every statement
  below about their values assumes an argument inside the domain.
\<close>

datatype error =
    TypeError  \<comment> \<open>an operand of unsupported kind\<close>
  | ZeroDivisionError
  | DimensionMismatch  \<comment> \<open>\<open>Exception("Number of inputs ... is not consistent ...")\<close>\<close>
  | NameError  \<comment> \<open>\<open>NameError("Please only use our elementary function.")\<close>\<close>
  | SyntaxError  \<comment> \<open>\<open>eval\<close> of a string that is no expression\<close>
  | RecursionError  \<comment> \<open>the interpreter's recursion limit\<close>
  | AttributeError
  | IndexError
  | MultiOutputParseFailure  \<comment> \<open>\<open>ValueError(err_msg)\<close> of \<open>Reverse.reverse\<close>\<close>

definition bindE :: "error + 'a \<Rightarrow> ('a \<Rightarrow> error + 'b) \<Rightarrow> error + 'b" where
  "bindE m f = (case m of Inl e \<Rightarrow> Inl e | Inr v \<Rightarrow> f v)"

text \<open>Python's \<open>a / b\<close> on numbers.\<close>

definition py_div :: "real \<Rightarrow> real \<Rightarrow> error + real" where
  "py_div a b = (if b = 0 then Inl ZeroDivisionError else Inr (a / b))"

text \<open>
  Python's \<open>x ** y\<close> on numbers: zero to a negative power raises; an integral exponent
  is repeated multiplication (inverted when negative); otherwise the real power. For a
  negative base and a fractional exponent Python leaves the reals (the result is a
  \<open>complex\<close>), where the model has whatever \<open>powr\<close> gives.
\<close>

definition py_pow :: "real \<Rightarrow> real \<Rightarrow> error + real" where
  "py_pow x y =
     (if x = 0 \<and> y < 0 then Inl ZeroDivisionError
      else if y \<in> \<int> then
        (if 0 \<le> y then Inr (x ^ nat \<lfloor>y\<rfloor>) else Inr (1 / x ^ nat \<lfloor>- y\<rfloor>))
      else Inr (x powr y))"

section \<open>Dual numbers (dual.py)\<close>

text \<open>\<open>Dual(real, dual=1)\<close>: the fields \<open>self.real\<close> and \<open>self.dual\<close>.\<close>

record dual =
  real_part :: real
  dual_part :: real

text \<open>
  A Python value as an operator or a library function meets it: a number, a \<open>Dual\<close>, a
  \<open>Node\<close> (a reference into the store of nodes, see below), or an object of any other
  class.
\<close>

datatype operand = Num real | DualV dual | NodeV nat | Other

text \<open>\<open>Dual.__init__(self, real, dual=1)\<close>\<close>

definition Dual :: "real \<Rightarrow> real option \<Rightarrow> dual" where
  "Dual r d = \<lparr>real_part = r, dual_part = (case d of None \<Rightarrow> 1 | Some v \<Rightarrow> v)\<rparr>"

definition dual_neg :: "dual \<Rightarrow> dual" where
  "dual_neg self = \<lparr>real_part = - real_part self, dual_part = - dual_part self\<rparr>"

fun dual_add :: "dual \<Rightarrow> operand \<Rightarrow> error + dual" where
  "dual_add self (Num other) =
     Inr \<lparr>real_part = real_part self + other, dual_part = dual_part self\<rparr>"
| "dual_add self (DualV other) =
     Inr \<lparr>real_part = real_part self + real_part other,
          dual_part = dual_part self + dual_part other\<rparr>"
| "dual_add self _ = Inl TypeError"

fun dual_radd :: "dual \<Rightarrow> operand \<Rightarrow> error + dual" where
  "dual_radd self (Num other) = dual_add self (Num other)"
| "dual_radd self (DualV other) = dual_add self (DualV other)"
| "dual_radd self _ = Inl TypeError"

fun dual_mul :: "dual \<Rightarrow> operand \<Rightarrow> error + dual" where
  "dual_mul self (Num other) =
     Inr \<lparr>real_part = real_part self * other, dual_part = dual_part self * other\<rparr>"
| "dual_mul self (DualV other) =
     Inr \<lparr>real_part = real_part self * real_part other,
          dual_part = real_part self * dual_part other + dual_part self * real_part other\<rparr>"
| "dual_mul self _ = Inl TypeError"

fun dual_rmul :: "dual \<Rightarrow> operand \<Rightarrow> error + dual" where
  "dual_rmul self (Num other) = dual_mul self (Num other)"
| "dual_rmul self (DualV other) = dual_mul self (DualV other)"
| "dual_rmul self _ = Inl TypeError"

fun dual_sub :: "dual \<Rightarrow> operand \<Rightarrow> error + dual" where
  "dual_sub self (Num other) =
     Inr \<lparr>real_part = real_part self - other, dual_part = dual_part self\<rparr>"
| "dual_sub self (DualV other) =
     Inr \<lparr>real_part = real_part self - real_part other,
          dual_part = dual_part self - dual_part other\<rparr>"
| "dual_sub self _ = Inl TypeError"

fun dual_rsub :: "dual \<Rightarrow> operand \<Rightarrow> error + dual" where
  "dual_rsub self (Num other) =
     Inr \<lparr>real_part = other - real_part self, dual_part = - dual_part self\<rparr>"
| "dual_rsub self _ = Inl TypeError"

fun dual_truediv :: "dual \<Rightarrow> operand \<Rightarrow> error + dual" where
  "dual_truediv self (Num other) =
     bindE (py_div (real_part self * other) (other\<^sup>2)) (\<lambda>real_part'.
     bindE (py_div (dual_part self * other) (other\<^sup>2)) (\<lambda>dual_part'.
     Inr \<lparr>real_part = real_part', dual_part = dual_part'\<rparr>))"
| "dual_truediv self (DualV other) =
     bindE (py_div (real_part self) (real_part other)) (\<lambda>real_part'.
     bindE (py_div (dual_part self * real_part other - real_part self * dual_part other)
              ((real_part other)\<^sup>2)) (\<lambda>dual_part'.
     Inr \<lparr>real_part = real_part', dual_part = dual_part'\<rparr>))"
| "dual_truediv self _ = Inl TypeError"

fun dual_rtruediv :: "dual \<Rightarrow> operand \<Rightarrow> error + dual" where
  "dual_rtruediv self (Num other) =
     bindE (py_div other (real_part self)) (\<lambda>real_part'.
     bindE (py_div other ((real_part self)\<^sup>2)) (\<lambda>q.
     Inr \<lparr>real_part = real_part', dual_part = - q * dual_part self\<rparr>))"
| "dual_rtruediv self _ = Inl TypeError"

fun dual_pow :: "dual \<Rightarrow> operand \<Rightarrow> error + dual" where
  "dual_pow self (Num other) =
     bindE (py_pow (real_part self) other) (\<lambda>real_part'.
     bindE (py_pow (real_part self) (other - 1)) (\<lambda>p.
     Inr \<lparr>real_part = real_part', dual_part = p * other * dual_part self\<rparr>))"
| "dual_pow self (DualV other) =
     bindE (py_pow (real_part self) (real_part other)) (\<lambda>real_part'.
     (let temp1 = ln (real_part self) * dual_part other in
      bindE (py_div (dual_part self * real_part other) (real_part self)) (\<lambda>temp2.
      bindE (py_pow (real_part self) (real_part other)) (\<lambda>p.
      Inr \<lparr>real_part = real_part', dual_part = p * (temp1 + temp2)\<rparr>))))"
| "dual_pow self _ = Inl TypeError"

fun dual_rpow :: "dual \<Rightarrow> operand \<Rightarrow> error + dual" where
  "dual_rpow self (Num other) =
     bindE (py_pow other (real_part self)) (\<lambda>real_part'.
     bindE (py_pow other (real_part self)) (\<lambda>p.
     Inr \<lparr>real_part = real_part', dual_part = ln other * p * dual_part self\<rparr>))"
| "dual_rpow self _ = Inl TypeError"

section \<open>Graph nodes (node.py)\<close>

text \<open>
  A \<open>Node\<close> object has the fields \<open>self.real\<close> and \<open>self.partial_derivs\<close>, a list of
  pairs (child, local gradient). Nodes are mutable and shared by reference, so the model
  keeps them in a store: the list of all nodes in order of creation, a reference being
  the position. \<open>Node(real)\<close> allocates at the end of the store. A reference held by a
  Python program always denotes a live object; the statements about nodes assume
  accordingly that a reference is below the length of the store.
\<close>

record node =
  node_real :: real
  partial_derivs :: "(nat \<times> real) list"

type_synonym store = "node list"

definition Node :: "real \<Rightarrow> store \<Rightarrow> nat \<times> store" where
  "Node r s = (length s, s @ [\<lparr>node_real = r, partial_derivs = []\<rparr>])"

text \<open>\<open>z.partial_derivs.append((child, partial_deriv))\<close>\<close>

definition append_deriv :: "nat \<Rightarrow> nat \<times> real \<Rightarrow> store \<Rightarrow> store" where
  "append_deriv z e s = s[z := (s ! z)\<lparr>partial_derivs := partial_derivs (s ! z) @ [e]\<rparr>]"

definition node_neg :: "nat \<Rightarrow> store \<Rightarrow> nat \<times> store" where
  "node_neg self s =
     (case Node (- 1 * node_real (s ! self)) s of (child, s1) \<Rightarrow>
        (child, append_deriv self (child, - 1) s1))"

fun node_add :: "nat \<Rightarrow> operand \<Rightarrow> store \<Rightarrow> error + nat \<times> store" where
  "node_add self (NodeV other) s =
     (case Node (node_real (s ! self) + node_real (s ! other)) s of (child, s1) \<Rightarrow>
        Inr (child, append_deriv other (child, 1) (append_deriv self (child, 1) s1)))"
| "node_add self (Num other) s =
     (case Node (node_real (s ! self) + other) s of (child, s1) \<Rightarrow>
        Inr (child, append_deriv self (child, 1) s1))"
| "node_add self _ s = Inl TypeError"

fun node_radd :: "nat \<Rightarrow> operand \<Rightarrow> store \<Rightarrow> error + nat \<times> store" where
  "node_radd self (Num other) s = node_add self (Num other) s"
| "node_radd self (NodeV other) s = node_add self (NodeV other) s"
| "node_radd self _ s = Inl TypeError"

fun node_mul :: "nat \<Rightarrow> operand \<Rightarrow> store \<Rightarrow> error + nat \<times> store" where
  "node_mul self (NodeV other) s =
     (case Node (node_real (s ! self) * node_real (s ! other)) s of (child, s1) \<Rightarrow>
        Inr (child, append_deriv other (child, node_real (s ! self))
                      (append_deriv self (child, node_real (s ! other)) s1)))"
| "node_mul self (Num other) s =
     (case Node (node_real (s ! self) * other) s of (child, s1) \<Rightarrow>
        Inr (child, append_deriv self (child, other) s1))"
| "node_mul self _ s = Inl TypeError"

fun node_rmul :: "nat \<Rightarrow> operand \<Rightarrow> store \<Rightarrow> error + nat \<times> store" where
  "node_rmul self (Num other) s = node_mul self (Num other) s"
| "node_rmul self (NodeV other) s = node_mul self (NodeV other) s"
| "node_rmul self _ s = Inl TypeError"

fun node_sub :: "nat \<Rightarrow> operand \<Rightarrow> store \<Rightarrow> error + nat \<times> store" where
  "node_sub self (NodeV other) s =
     (case Node (node_real (s ! self) - node_real (s ! other)) s of (child, s1) \<Rightarrow>
        Inr (child, append_deriv other (child, - 1) (append_deriv self (child, 1) s1)))"
| "node_sub self (Num other) s =
     (case Node (node_real (s ! self) - other) s of (child, s1) \<Rightarrow>
        Inr (child, append_deriv self (child, 1) s1))"
| "node_sub self _ s = Inl TypeError"

text \<open>In \<open>__rsub__\<close> the source reads \<open>other.real\<close>, which on an int or a float is the number itself.\<close>

fun node_rsub :: "nat \<Rightarrow> operand \<Rightarrow> store \<Rightarrow> error + nat \<times> store" where
  "node_rsub self (Num other) s =
     (case Node (other - node_real (s ! self)) s of (child, s1) \<Rightarrow>
        Inr (child, append_deriv self (child, - 1) s1))"
| "node_rsub self _ s = Inl TypeError"

fun node_truediv :: "nat \<Rightarrow> operand \<Rightarrow> store \<Rightarrow> error + nat \<times> store" where
  "node_truediv self (NodeV other) s =
     bindE (py_div (node_real (s ! self)) (node_real (s ! other))) (\<lambda>v.
     case Node v s of (child, s1) \<Rightarrow>
     bindE (py_div 1 (node_real (s ! other))) (\<lambda>p_self.
     bindE (py_div (- 1 * node_real (s ! self)) ((node_real (s ! other))\<^sup>2)) (\<lambda>p_other.
     Inr (child, append_deriv other (child, p_other) (append_deriv self (child, p_self) s1)))))"
| "node_truediv self (Num other) s =
     bindE (py_div (node_real (s ! self)) other) (\<lambda>v.
     case Node v s of (child, s1) \<Rightarrow>
     bindE (py_div 1 other) (\<lambda>p_self.
     Inr (child, append_deriv self (child, p_self) s1)))"
| "node_truediv self _ s = Inl TypeError"

fun node_rtruediv :: "nat \<Rightarrow> operand \<Rightarrow> store \<Rightarrow> error + nat \<times> store" where
  "node_rtruediv self (Num other) s =
     bindE (py_div other (node_real (s ! self))) (\<lambda>v.
     case Node v s of (child, s1) \<Rightarrow>
     bindE (py_div (- 1 * other) ((node_real (s ! self))\<^sup>2)) (\<lambda>p_self.
     Inr (child, append_deriv self (child, p_self) s1)))"
| "node_rtruediv self _ s = Inl TypeError"

fun node_pow :: "nat \<Rightarrow> operand \<Rightarrow> store \<Rightarrow> error + nat \<times> store" where
  "node_pow self (NodeV other) s =
     bindE (py_pow (node_real (s ! self)) (node_real (s ! other))) (\<lambda>v.
     case Node v s of (child, s1) \<Rightarrow>
     bindE (py_pow (node_real (s ! self)) (node_real (s ! other) - 1)) (\<lambda>p.
     bindE (py_pow (node_real (s ! self)) (node_real (s ! other))) (\<lambda>q.
     Inr (child, append_deriv other (child, q * ln (node_real (s ! self)))
                   (append_deriv self (child, node_real (s ! other) * p) s1)))))"
| "node_pow self (Num other) s =
     bindE (py_pow (node_real (s ! self)) other) (\<lambda>v.
     case Node v s of (child, s1) \<Rightarrow>
     bindE (py_pow (node_real (s ! self)) (other - 1)) (\<lambda>p.
     Inr (child, append_deriv self (child, other * p) s1)))"
| "node_pow self _ s = Inl TypeError"

fun node_rpow :: "nat \<Rightarrow> operand \<Rightarrow> store \<Rightarrow> error + nat \<times> store" where
  "node_rpow self (Num other) s =
     bindE (py_pow other (node_real (s ! self))) (\<lambda>v.
     case Node v s of (child, s1) \<Rightarrow>
     bindE (py_pow other (node_real (s ! self))) (\<lambda>q.
     Inr (child, append_deriv self (child, q * ln other) s1)))"
| "node_rpow self _ s = Inl TypeError"

section \<open>Elementary functions (elem_func.py)\<close>

text \<open>
  Each function tests its argument for \<open>Dual\<close>, then \<open>Node\<close>, then \<open>int\<close> or
  \<open>float\<close>, and raises \<open>TypeError\<close> otherwise. A quotient whose divisor comes out of
  numpy (\<open>np.cos(...)**2\<close>, \<open>np.sqrt(...)\<close>, \<open>np.log(base)\<close>, \<open>1 + np.exp(...)\<close>) is
  numpy's division, which does not raise, hence HOL's \<open>/\<close>; \<open>1 / z.real\<close> in \<open>log\<close>
  and \<open>z.real ** -.5\<close> in \<open>sqrt\<close> are Python's operators on the stored number.
\<close>

fun sin_elem :: "operand \<Rightarrow> store \<Rightarrow> error + operand \<times> store" where
  "sin_elem (DualV z) s =
     Inr (DualV \<lparr>real_part = sin (real_part z),
                 dual_part = dual_part z * cos (real_part z)\<rparr>, s)"
| "sin_elem (NodeV z) s =
     (case Node (sin (node_real (s ! z))) s of (child, s1) \<Rightarrow>
        Inr (NodeV child, append_deriv z (child, cos (node_real (s ! z))) s1))"
| "sin_elem (Num z) s = Inr (Num (sin z), s)"
| "sin_elem Other s = Inl TypeError"

fun cos_elem :: "operand \<Rightarrow> store \<Rightarrow> error + operand \<times> store" where
  "cos_elem (DualV z) s =
     Inr (DualV \<lparr>real_part = cos (real_part z),
                 dual_part = - sin (real_part z) * dual_part z\<rparr>, s)"
| "cos_elem (NodeV z) s =
     (case Node (cos (node_real (s ! z))) s of (child, s1) \<Rightarrow>
        Inr (NodeV child, append_deriv z (child, - sin (node_real (s ! z))) s1))"
| "cos_elem (Num z) s = Inr (Num (cos z), s)"
| "cos_elem Other s = Inl TypeError"

fun tan_elem :: "operand \<Rightarrow> store \<Rightarrow> error + operand \<times> store" where
  "tan_elem (DualV z) s =
     Inr (DualV \<lparr>real_part = tan (real_part z),
                 dual_part = 1 / (cos (real_part z))\<^sup>2 * dual_part z\<rparr>, s)"
| "tan_elem (NodeV z) s =
     (case Node (tan (node_real (s ! z))) s of (child, s1) \<Rightarrow>
        Inr (NodeV child, append_deriv z (child, 1 / (cos (node_real (s ! z)))\<^sup>2) s1))"
| "tan_elem (Num z) s = Inr (Num (tan z), s)"
| "tan_elem Other s = Inl TypeError"

fun exp_elem :: "operand \<Rightarrow> store \<Rightarrow> error + operand \<times> store" where
  "exp_elem (DualV z) s =
     Inr (DualV \<lparr>real_part = exp (real_part z),
                 dual_part = exp (real_part z) * dual_part z\<rparr>, s)"
| "exp_elem (NodeV z) s =
     (case Node (exp (node_real (s ! z))) s of (child, s1) \<Rightarrow>
        Inr (NodeV child, append_deriv z (child, exp (node_real (s ! z))) s1))"
| "exp_elem (Num z) s = Inr (Num (exp z), s)"
| "exp_elem Other s = Inl TypeError"

fun sqrt_elem :: "operand \<Rightarrow> store \<Rightarrow> error + operand \<times> store" where
  "sqrt_elem (DualV z) s =
     Inr (DualV \<lparr>real_part = sqrt (real_part z),
                 dual_part = 0.5 / sqrt (real_part z) * dual_part z\<rparr>, s)"
| "sqrt_elem (NodeV z) s =
     (case Node (sqrt (node_real (s ! z))) s of (child, s1) \<Rightarrow>
        bindE (py_pow (node_real (s ! z)) (- 0.5)) (\<lambda>p.
        Inr (NodeV child, append_deriv z (child, 0.5 * p) s1)))"
| "sqrt_elem (Num z) s = Inr (Num (sqrt z), s)"
| "sqrt_elem Other s = Inl TypeError"

fun log_elem :: "operand \<Rightarrow> store \<Rightarrow> error + operand \<times> store" where
  "log_elem (DualV z) s =
     bindE (py_div 1 (real_part z)) (\<lambda>q.
     Inr (DualV \<lparr>real_part = ln (real_part z), dual_part = q * dual_part z\<rparr>, s))"
| "log_elem (NodeV z) s =
     (case Node (ln (node_real (s ! z))) s of (child, s1) \<Rightarrow>
        bindE (py_div 1 (node_real (s ! z))) (\<lambda>q.
        Inr (NodeV child, append_deriv z (child, q) s1)))"
| "log_elem (Num z) s = Inr (Num (ln z), s)"
| "log_elem Other s = Inl TypeError"

text \<open>\<open>logb(z, base)\<close>; the base is a number.\<close>

fun logb :: "operand \<Rightarrow> real \<Rightarrow> store \<Rightarrow> error + operand \<times> store" where
  "logb (DualV z) base s =
     Inr (DualV \<lparr>real_part = ln (real_part z) / ln base,
                 dual_part = (1 / (real_part z * ln base)) * dual_part z\<rparr>, s)"
| "logb (NodeV z) base s =
     (case Node (ln (node_real (s ! z)) / ln base) s of (child, s1) \<Rightarrow>
        Inr (NodeV child, append_deriv z (child, 1 / (node_real (s ! z) * ln base)) s1))"
| "logb (Num z) base s = Inr (Num (ln z / ln base), s)"
| "logb Other base s = Inl TypeError"

fun arcsin_elem :: "operand \<Rightarrow> store \<Rightarrow> error + operand \<times> store" where
  "arcsin_elem (DualV z) s =
     Inr (DualV \<lparr>real_part = arcsin (real_part z),
                 dual_part = 1 / sqrt (1 - (real_part z)\<^sup>2) * dual_part z\<rparr>, s)"
| "arcsin_elem (NodeV z) s =
     (case Node (arcsin (node_real (s ! z))) s of (child, s1) \<Rightarrow>
        Inr (NodeV child, append_deriv z (child, 1 / sqrt (1 - (node_real (s ! z))\<^sup>2)) s1))"
| "arcsin_elem (Num z) s = Inr (Num (arcsin z), s)"
| "arcsin_elem Other s = Inl TypeError"

fun arccos_elem :: "operand \<Rightarrow> store \<Rightarrow> error + operand \<times> store" where
  "arccos_elem (DualV z) s =
     Inr (DualV \<lparr>real_part = arccos (real_part z),
                 dual_part = - 1 / sqrt (1 - (real_part z)\<^sup>2) * dual_part z\<rparr>, s)"
| "arccos_elem (NodeV z) s =
     (case Node (arccos (node_real (s ! z))) s of (child, s1) \<Rightarrow>
        Inr (NodeV child, append_deriv z (child, - 1 / sqrt (1 - (node_real (s ! z))\<^sup>2)) s1))"
| "arccos_elem (Num z) s = Inr (Num (arccos z), s)"
| "arccos_elem Other s = Inl TypeError"

fun arctan_elem :: "operand \<Rightarrow> store \<Rightarrow> error + operand \<times> store" where
  "arctan_elem (DualV z) s =
     Inr (DualV \<lparr>real_part = arctan (real_part z),
                 dual_part = 1 / (1 + (real_part z)\<^sup>2) * dual_part z\<rparr>, s)"
| "arctan_elem (NodeV z) s =
     (case Node (arctan (node_real (s ! z))) s of (child, s1) \<Rightarrow>
        Inr (NodeV child, append_deriv z (child, 1 / (1 + (node_real (s ! z))\<^sup>2)) s1))"
| "arctan_elem (Num z) s = Inr (Num (arctan z), s)"
| "arctan_elem Other s = Inl TypeError"

fun sinh_elem :: "operand \<Rightarrow> store \<Rightarrow> error + operand \<times> store" where
  "sinh_elem (DualV z) s =
     Inr (DualV \<lparr>real_part = sinh (real_part z),
                 dual_part = cosh (real_part z) * dual_part z\<rparr>, s)"
| "sinh_elem (NodeV z) s =
     (case Node (sinh (node_real (s ! z))) s of (child, s1) \<Rightarrow>
        Inr (NodeV child, append_deriv z (child, cosh (node_real (s ! z))) s1))"
| "sinh_elem (Num z) s = Inr (Num (sinh z), s)"
| "sinh_elem Other s = Inl TypeError"

fun cosh_elem :: "operand \<Rightarrow> store \<Rightarrow> error + operand \<times> store" where
  "cosh_elem (DualV z) s =
     Inr (DualV \<lparr>real_part = cosh (real_part z),
                 dual_part = sinh (real_part z) * dual_part z\<rparr>, s)"
| "cosh_elem (NodeV z) s =
     (case Node (cosh (node_real (s ! z))) s of (child, s1) \<Rightarrow>
        Inr (NodeV child, append_deriv z (child, sinh (node_real (s ! z))) s1))"
| "cosh_elem (Num z) s = Inr (Num (cosh z), s)"
| "cosh_elem Other s = Inl TypeError"

fun tanh_elem :: "operand \<Rightarrow> store \<Rightarrow> error + operand \<times> store" where
  "tanh_elem (DualV z) s =
     Inr (DualV \<lparr>real_part = tanh (real_part z),
                 dual_part = dual_part z * (1 - (tanh (real_part z))\<^sup>2)\<rparr>, s)"
| "tanh_elem (NodeV z) s =
     (case Node (tanh (node_real (s ! z))) s of (child, s1) \<Rightarrow>
        Inr (NodeV child, append_deriv z (child, 1 - (tanh (node_real (s ! z)))\<^sup>2) s1))"
| "tanh_elem (Num z) s = Inr (Num (tanh z), s)"
| "tanh_elem Other s = Inl TypeError"

text \<open>\<open>f = lambda x: 1. / (1 + np.exp(-x))\<close> inside \<open>logistic\<close>\<close>

definition logistic_f :: "real \<Rightarrow> real" where
  "logistic_f x = 1 / (1 + exp (- x))"

fun logistic :: "operand \<Rightarrow> store \<Rightarrow> error + operand \<times> store" where
  "logistic (DualV z) s =
     Inr (DualV \<lparr>real_part = logistic_f (real_part z),
                 dual_part = logistic_f (real_part z) * (1 - logistic_f (real_part z)) * dual_part z\<rparr>, s)"
| "logistic (NodeV z) s =
     (case Node (logistic_f (node_real (s ! z))) s of (child, s1) \<Rightarrow>
        Inr (NodeV child, append_deriv z (child, logistic_f (node_real (s ! z)) * (1 - logistic_f (node_real (s ! z)))) s1))"
| "logistic (Num z) s = Inr (Num (logistic_f z), s)"
| "logistic Other s = Inl TypeError"

text \<open>The fourteen library functions by name; \<open>logb\<close> carries its base.\<close>

datatype elem = Sin | Cos | Tan | Exp | Sqrt | Log | Logb real | Arcsin | Arccos | Arctan
  | Sinh | Cosh | Tanh | Logistic

fun call_elem :: "elem \<Rightarrow> operand \<Rightarrow> store \<Rightarrow> error + operand \<times> store" where
  "call_elem Sin z s = sin_elem z s"
| "call_elem Cos z s = cos_elem z s"
| "call_elem Tan z s = tan_elem z s"
| "call_elem Exp z s = exp_elem z s"
| "call_elem Sqrt z s = sqrt_elem z s"
| "call_elem Log z s = log_elem z s"
| "call_elem (Logb base) z s = logb z base s"
| "call_elem Arcsin z s = arcsin_elem z s"
| "call_elem Arccos z s = arccos_elem z s"
| "call_elem Arctan z s = arctan_elem z s"
| "call_elem Sinh z s = sinh_elem z s"
| "call_elem Cosh z s = cosh_elem z s"
| "call_elem Tanh z s = tanh_elem z s"
| "call_elem Logistic z s = logistic z s"


section \<open>Operators as Python dispatches them\<close>

datatype binop = OpAdd | OpSub | OpMul | OpDiv | OpPow

text \<open>Both operands are numbers: Python's own arithmetic.\<close>

fun num_binop :: "binop \<Rightarrow> real \<Rightarrow> real \<Rightarrow> error + real" where
  "num_binop OpAdd a b = Inr (a + b)"
| "num_binop OpSub a b = Inr (a - b)"
| "num_binop OpMul a b = Inr (a * b)"
| "num_binop OpDiv a b = py_div a b"
| "num_binop OpPow a b = py_pow a b"

fun dual_binop :: "binop \<Rightarrow> dual \<Rightarrow> operand \<Rightarrow> error + dual" where
  "dual_binop OpAdd self other = dual_add self other"
| "dual_binop OpSub self other = dual_sub self other"
| "dual_binop OpMul self other = dual_mul self other"
| "dual_binop OpDiv self other = dual_truediv self other"
| "dual_binop OpPow self other = dual_pow self other"

fun dual_rbinop :: "binop \<Rightarrow> dual \<Rightarrow> operand \<Rightarrow> error + dual" where
  "dual_rbinop OpAdd self other = dual_radd self other"
| "dual_rbinop OpSub self other = dual_rsub self other"
| "dual_rbinop OpMul self other = dual_rmul self other"
| "dual_rbinop OpDiv self other = dual_rtruediv self other"
| "dual_rbinop OpPow self other = dual_rpow self other"

fun node_binop :: "binop \<Rightarrow> nat \<Rightarrow> operand \<Rightarrow> store \<Rightarrow> error + nat \<times> store" where
  "node_binop OpAdd self other s = node_add self other s"
| "node_binop OpSub self other s = node_sub self other s"
| "node_binop OpMul self other s = node_mul self other s"
| "node_binop OpDiv self other s = node_truediv self other s"
| "node_binop OpPow self other s = node_pow self other s"

fun node_rbinop :: "binop \<Rightarrow> nat \<Rightarrow> operand \<Rightarrow> store \<Rightarrow> error + nat \<times> store" where
  "node_rbinop OpAdd self other s = node_radd self other s"
| "node_rbinop OpSub self other s = node_rsub self other s"
| "node_rbinop OpMul self other s = node_rmul self other s"
| "node_rbinop OpDiv self other s = node_rtruediv self other s"
| "node_rbinop OpPow self other s = node_rpow self other s"

text \<open>
  \<open>a op b\<close>: the method of the left operand when it is a \<open>Dual\<close> or a \<open>Node\<close>; the
  reflected method of the right operand when the left one is a number, whose own method
  returns \<open>NotImplemented\<close>; \<open>TypeError\<close> when neither operand's class offers one.
\<close>

fun binary :: "binop \<Rightarrow> operand \<Rightarrow> operand \<Rightarrow> store \<Rightarrow> error + operand \<times> store" where
  "binary op (DualV a) b s = bindE (dual_binop op a b) (\<lambda>d. Inr (DualV d, s))"
| "binary op (NodeV a) b s =
     bindE (node_binop op a b s) (\<lambda>(child, s'). Inr (NodeV child, s'))"
| "binary op (Num a) (Num b) s = bindE (num_binop op a b) (\<lambda>v. Inr (Num v, s))"
| "binary op (Num a) (DualV b) s = bindE (dual_rbinop op b (Num a)) (\<lambda>d. Inr (DualV d, s))"
| "binary op (Num a) (NodeV b) s =
     bindE (node_rbinop op b (Num a) s) (\<lambda>(child, s'). Inr (NodeV child, s'))"
| "binary op (Num a) Other s = Inl TypeError"
| "binary op Other b s = Inl TypeError"

fun unary_neg :: "operand \<Rightarrow> store \<Rightarrow> error + operand \<times> store" where
  "unary_neg (Num a) s = Inr (Num (- a), s)"
| "unary_neg (DualV a) s = Inr (DualV (dual_neg a), s)"
| "unary_neg (NodeV a) s = (case node_neg a s of (child, s') \<Rightarrow> Inr (NodeV child, s'))"
| "unary_neg Other s = Inl TypeError"

section \<open>The differentiable function (autodiff.py)\<close>

text \<open>
  The engines are handed a Python callable. The functions they are meant for use the
  parameters, numeric literals, the operators above and calls of the library, and return
  one such expression or a list of them; such a function is its parameter count, the
  expressions it returns and, for the source inspection of the reverse engine, the module
  names its source text puts before library functions (\<open>ef\<close> in \<open>ef.sin(x)\<close>).
  \<open>Var i\<close> is the \<open>i\<close>-th parameter; a name that is no parameter raises \<open>NameError\<close>.
  Parameters are thus told apart by position, not by name, and every library call of one
  function is taken to be written the same way, after one module name or after none.
\<close>

datatype expr =
    Var nat
  | Const real
  | Neg expr
  | BinOp binop expr expr
  | Call elem expr

text \<open>
  Evaluation is left to right in one store. \<open>lib\<close> tells whether the library's names are
  bound where the expression is evaluated.
\<close>

fun eval :: "bool \<Rightarrow> operand list \<Rightarrow> expr \<Rightarrow> store \<Rightarrow> error + operand \<times> store" where
  "eval lib args (Var i) s = (if i < length args then Inr (args ! i, s) else Inl NameError)"
| "eval lib args (Const c) s = Inr (Num c, s)"
| "eval lib args (Neg e) s = bindE (eval lib args e s) (\<lambda>(v, s1). unary_neg v s1)"
| "eval lib args (BinOp op l r) s =
     bindE (eval lib args l s) (\<lambda>(a, s1).
     bindE (eval lib args r s1) (\<lambda>(b, s2). binary op a b s2))"
| "eval lib args (Call f e) s =
     (if \<not> lib then Inl NameError
      else bindE (eval lib args e s) (\<lambda>(v, s1). call_elem f v s1))"

fun eval_list :: "bool \<Rightarrow> operand list \<Rightarrow> expr list \<Rightarrow> store \<Rightarrow> error + operand list \<times> store" where
  "eval_list lib args [] s = Inr ([], s)"
| "eval_list lib args (e # es) s =
     bindE (eval lib args e s) (\<lambda>(v, s1).
     bindE (eval_list lib args es s1) (\<lambda>(vs, s2). Inr (v # vs, s2)))"

datatype body = Single expr | Multi "expr list"

record func =
  co_argcount :: nat
  returns :: body
  pkg_names :: "string list"

text \<open>What a call returns: one value, or a list.\<close>

datatype ret = One operand | Many "operand list"

text \<open>\<open>self.funcs(*args)\<close>; Python itself raises \<open>TypeError\<close> on a wrong number of arguments.\<close>

definition call :: "func \<Rightarrow> operand list \<Rightarrow> store \<Rightarrow> error + ret \<times> store" where
  "call f args s =
     (if length args \<noteq> co_argcount f then Inl TypeError
      else case returns f of
        Single e \<Rightarrow> bindE (eval True args e s) (\<lambda>(v, s'). Inr (One v, s'))
      | Multi es \<Rightarrow> bindE (eval_list True args es s) (\<lambda>(vs, s'). Inr (Many vs, s')))"

record autodiff =
  funcs :: func
  n_inputs :: nat

definition AutoDiff :: "func \<Rightarrow> autodiff" where
  "AutoDiff f = \<lparr>funcs = f, n_inputs = co_argcount f\<rparr>"

text \<open>The argument \<open>inputs\<close>: an int or a float, or a sequence of them.\<close>

datatype inputs = Scalar real | Seq "real list"

text \<open>\<open>if isinstance(inputs, (int, float)): inputs = np.asarray([inputs])\<close>\<close>

fun as_list :: "inputs \<Rightarrow> real list" where
  "as_list (Scalar x) = [x]"
| "as_list (Seq xs) = xs"

text \<open>What an engine returns: a number, or a numpy array of one or two dimensions.\<close>

datatype py_value = Number real | Vector "real list" | Matrix "real list list"

text \<open>
  \<open>elem.real\<close> and \<open>elem.dual\<close>. Python's numbers have the attribute \<open>real\<close> and no
  attribute \<open>dual\<close>.
\<close>

fun attr_real :: "store \<Rightarrow> operand \<Rightarrow> error + real" where
  "attr_real s (Num a) = Inr a"
| "attr_real s (DualV d) = Inr (real_part d)"
| "attr_real s (NodeV n) = Inr (node_real (s ! n))"
| "attr_real s Other = Inl AttributeError"

fun attr_dual :: "operand \<Rightarrow> error + real" where
  "attr_dual (DualV d) = Inr (dual_part d)"
| "attr_dual _ = Inl AttributeError"

fun mapE :: "('a \<Rightarrow> error + 'b) \<Rightarrow> 'a list \<Rightarrow> error + 'b list" where
  "mapE f [] = Inr []"
| "mapE f (x # xs) = bindE (f x) (\<lambda>y. bindE (mapE f xs) (\<lambda>ys. Inr (y # ys)))"

section \<open>The forward engine (forward.py)\<close>

text \<open>
  What \<open>_dual_forward\<close> returns: for one input the value of the call, for several inputs
  the list \<open>jacob\<close> of the values of the calls, one per input.
\<close>

datatype fwd = Uni ret | Jacob "ret list"

text \<open>
  The loop \<open>for idx in range(len(inputs))\<close> of \<open>_dual_forward\<close>: set the derivative of
  input \<open>idx\<close> to 1, call the function, set it back to 0.
\<close>

fun passes :: "func \<Rightarrow> dual list \<Rightarrow> nat list \<Rightarrow> error + ret list" where
  "passes f duals [] = Inr []"
| "passes f duals (idx # rest) =
     (let duals1 = duals[idx := Dual (real_part (duals ! idx)) (Some 1)] in
      bindE (call f (map DualV duals1) []) (\<lambda>(r, _).
      (let duals2 = duals1[idx := Dual (real_part (duals1 ! idx)) (Some 0)] in
       bindE (passes f duals2 rest) (\<lambda>jacob. Inr (r # jacob)))))"

definition dual_forward :: "autodiff \<Rightarrow> inputs \<Rightarrow> error + fwd" where
  "dual_forward self inputs0 =
     (let inputs = as_list inputs0 in
      if length inputs \<noteq> n_inputs self then Inl DimensionMismatch
      else if length inputs = 1 then
        (let duals = map (\<lambda>input. Dual input None) inputs in
         bindE (call (funcs self) (map DualV duals) []) (\<lambda>(r, _). Inr (Uni r)))
      else
        (let duals = map (\<lambda>input. Dual input (Some 0)) inputs in
         bindE (passes (funcs self) duals [0..<length inputs]) (\<lambda>jacob. Inr (Jacob jacob))))"

text \<open>
  \<open>[elem.attr for elem in result]\<close> where \<open>result\<close> is what one call returned: a list is
  iterated; a single object is not iterable.
\<close>

fun attrs :: "(operand \<Rightarrow> error + real) \<Rightarrow> ret \<Rightarrow> error + real list" where
  "attrs attr (Many vs) = mapE attr vs"
| "attrs attr (One v) = Inl TypeError"

text \<open>
  \<open>[elem.attr for elem in result]\<close> where \<open>result\<close> is the array of the values of the
  calls, each of them a single \<open>Dual\<close>.
\<close>

fun attr_one :: "(operand \<Rightarrow> error + real) \<Rightarrow> ret \<Rightarrow> error + real" where
  "attr_one attr (One v) = attr v"
| "attr_one attr (Many vs) = Inl AttributeError"

fun is_Dual :: "ret \<Rightarrow> bool" where
  "is_Dual (One (DualV d)) = True"
| "is_Dual _ = False"

text \<open>
  \<open>Forward.get_value\<close> calls \<open>_dual_forward\<close> and reads the \<open>real\<close> fields of what
  it returned.
\<close>

definition real_components :: "fwd \<Rightarrow> error + py_value" where
  "real_components result =
     (case result of
        Uni r \<Rightarrow>
          (if is_Dual r then bindE (attr_one (attr_real []) r) (\<lambda>v. Inr (Number v))
           else bindE (attrs (attr_real []) r) (\<lambda>vs. Inr (Vector vs)))
      | Jacob jacob \<Rightarrow>
          (case jacob of
             [] \<Rightarrow> Inl IndexError
           | r0 # _ \<Rightarrow>
               if is_Dual r0 then
                 bindE (mapE (attr_one (attr_real [])) jacob) (\<lambda>vs. Inr (Number (hd vs)))
               else
                 bindE (mapE (attrs (attr_real [])) jacob) (\<lambda>rows. Inr (Vector (hd rows)))))"

definition forward_get_value :: "autodiff \<Rightarrow> inputs \<Rightarrow> error + py_value" where
  "forward_get_value self inputs0 = bindE (dual_forward self inputs0) real_components"

text \<open>
  \<open>Forward.forward\<close> calls \<open>_dual_forward\<close> and reads the \<open>dual\<close> fields; \<open>.T\<close> is the
  transpose.
\<close>

definition dual_components :: "fwd \<Rightarrow> error + py_value" where
  "dual_components result =
     (case result of
        Uni r \<Rightarrow>
          (if is_Dual r then bindE (attr_one attr_dual r) (\<lambda>v. Inr (Number v))
           else bindE (attrs attr_dual r) (\<lambda>vs. Inr (Vector vs)))
      | Jacob jacob \<Rightarrow>
          (case jacob of
             [] \<Rightarrow> Inl IndexError
           | r0 # _ \<Rightarrow>
               if is_Dual r0 then
                 bindE (mapE (attr_one attr_dual) jacob) (\<lambda>vs. Inr (Vector vs))
               else
                 bindE (mapE (attrs attr_dual) jacob) (\<lambda>rows. Inr (Matrix (transpose rows)))))"

definition forward :: "autodiff \<Rightarrow> inputs \<Rightarrow> error + py_value" where
  "forward self inputs0 = bindE (dual_forward self inputs0) dual_components"

section \<open>The reverse engine (reverse.py)\<close>

text \<open>
  \<open>_calc_grad(root, st)\<close> inside \<open>_gradiant\<close>: for each pair \<open>(child, partial_deriv)\<close>
  of \<open>root\<close>, add \<open>st * partial_deriv\<close> to the entry of the child and recurse into the
  child with that product. \<open>gradiant\<close> is a \<open>defaultdict\<close> with default 0 whose keys are
  node objects, hence a function from references to numbers. The recursion ends on the
  graphs the operators build and on no graph with a cycle; the model counts the depth of
  the recursion down from a bound and gives \<open>None\<close> when it is used up.
\<close>

fun calc_grad :: "nat \<Rightarrow> store \<Rightarrow> nat \<Rightarrow> real \<Rightarrow> (nat \<Rightarrow> real) \<Rightarrow> (nat \<Rightarrow> real) option"
  and calc_children ::
    "nat \<Rightarrow> store \<Rightarrow> (nat \<times> real) list \<Rightarrow> real \<Rightarrow> (nat \<Rightarrow> real) \<Rightarrow> (nat \<Rightarrow> real) option"
where
  "calc_grad 0 s root_node st gradiant = None"
| "calc_grad (Suc depth) s root_node st gradiant =
     (if root_node < length s then calc_children depth s (partial_derivs (s ! root_node)) st gradiant
      else None)"
| "calc_children depth s [] st gradiant = Some gradiant"
| "calc_children depth s ((child, partial_deriv) # rest) st gradiant =
     (let chain_grad = st * partial_deriv;
          gradiant1 = gradiant(child := gradiant child + chain_grad)
      in case calc_grad depth s child chain_grad gradiant1 of
           None \<Rightarrow> None
         | Some gradiant2 \<Rightarrow> calc_children depth s rest st gradiant2)"

text \<open>
  \<open>_gradiant(root)\<close>. A graph of \<open>length s\<close> nodes without a cycle has no path of more
  than \<open>length s\<close> nodes, so this bound is never used up on it; used up, it stands for
  Python's \<open>RecursionError\<close>.
\<close>

definition gradiant :: "store \<Rightarrow> nat \<Rightarrow> error + (nat \<Rightarrow> real)" where
  "gradiant s root_node =
     (case calc_grad (length s) s root_node 1 (\<lambda>_. 0) of
        None \<Rightarrow> Inl RecursionError
      | Some g \<Rightarrow> Inr g)"

text \<open>\<open>[Node(input) for input in inputs]\<close>\<close>

fun make_nodes :: "real list \<Rightarrow> store \<Rightarrow> nat list \<times> store" where
  "make_nodes [] s = ([], s)"
| "make_nodes (input # rest) s =
     (case Node input s of (n, s1) \<Rightarrow>
      case make_nodes rest s1 of (ns, s2) \<Rightarrow> (n # ns, s2))"

fun is_Node :: "ret \<Rightarrow> bool" where
  "is_Node (One (NodeV n)) = True"
| "is_Node _ = False"

text \<open>\<open>Reverse.get_value\<close>\<close>

definition reverse_get_value :: "autodiff \<Rightarrow> inputs \<Rightarrow> error + py_value" where
  "reverse_get_value self inputs0 =
     (let inputs = as_list inputs0 in
      if length inputs \<noteq> n_inputs self then Inl DimensionMismatch
      else case make_nodes inputs [] of (nodes, s0) \<Rightarrow>
        bindE (call (funcs self) (map NodeV nodes) s0) (\<lambda>(result, s).
        if is_Node result then bindE (attr_one (attr_real s) result) (\<lambda>v. Inr (Number v))
        else bindE (attrs (attr_real s) result) (\<lambda>vs. Inr (Vector vs))))"

text \<open>
  \<open>self._gradiant(elem)[res]\<close>: the entry of a node; of a number, a key never written,
  the default; a \<open>Dual\<close> defines \<open>__eq__\<close> without \<open>__hash__\<close> and is no key.
\<close>

fun grad_entry :: "store \<Rightarrow> nat \<Rightarrow> operand \<Rightarrow> error + real" where
  "grad_entry s elem (NodeV res) = bindE (gradiant s elem) (\<lambda>g. Inr (g res))"
| "grad_entry s elem (Num res) = bindE (gradiant s elem) (\<lambda>g. Inr 0)"
| "grad_entry s elem _ = bindE (gradiant s elem) (\<lambda>g. Inl TypeError)"

text \<open>
  The source inspection of the branch for several outputs. The source of the function is
  taken to be, as the engine requires, the one bracketed list of the returned expressions,
  so that the regular expression finds the text between the brackets. \<open>split(",")\<close> cuts
  that text at every comma: the commas between the expressions, and the comma of every
  call \<open>logb(z, base)\<close> within one. An expression without a comma is a piece of its own
  (\<open>Some\<close>); an expression with \<open>k\<close> commas falls into \<open>k + 1\<close> pieces with unbalanced
  parentheses, which \<open>eval\<close> rejects (\<open>None\<close>). Of a function that returns no list the
  source holds no bracketed list and \<open>re.findall(...)[-1]\<close> raises \<open>IndexError\<close>.
\<close>

fun commas :: "expr \<Rightarrow> nat" where
  "commas (Var i) = 0"
| "commas (Const c) = 0"
| "commas (Neg e) = commas e"
| "commas (BinOp op l r) = commas l + commas r"
| "commas (Call (Logb base) e) = Suc (commas e)"
| "commas (Call f e) = commas e"

definition pieces :: "expr \<Rightarrow> expr option list" where
  "pieces e = (if commas e = 0 then [Some e] else replicate (Suc (commas e)) None)"

fun funcs_lst :: "body \<Rightarrow> error + expr option list" where
  "funcs_lst (Multi es) = Inr (concat (map pieces es))"
| "funcs_lst (Single e) = Inl IndexError"

definition exclude_pkg :: "string list" where
  "exclude_pkg = [''math'', ''numpy'', ''np'']"

text \<open>
  The loop \<open>for input_node, function in zip(input_nodes, funcs_lst)\<close>. Every
  \<open>input_node\<close> is a deep copy of the nodes after the first call, hence of the whole graph:
  each expression is evaluated in the store \<open>s\<close> as that call left it, apart from the others.

  The engine binds the parameters by name: it writes each copy into \<open>vars()\<close> under the
  parameter's name and calls \<open>eval\<close> in the frame of \<open>Reverse.reverse\<close>. The model binds
  them by position, which is the same as long as \<open>eval\<close> reads the names from the
  dictionary that \<open>vars()\<close> returned (CPython before 3.13) and no parameter bears the name
  of a local variable of \<open>Reverse.reverse\<close> (\<open>self\<close>, \<open>inputs\<close>, \<open>nodes\<close>, \<open>result\<close>,
  \<open>err_msg\<close>, \<open>jacob\<close>, \<open>n_func\<close>, \<open>input_nodes\<close>, \<open>var_names\<close>, \<open>funcs_str\<close>,
  \<open>funcs_lst\<close>, \<open>pkg_names\<close>, \<open>func_str\<close>, \<open>pattern\<close>, \<open>pkg_name\<close>, \<open>exclude_pkg\<close>,
  \<open>pkg\<close>, \<open>input_node\<close>, \<open>function\<close>, \<open>var\<close>, \<open>val\<close>, \<open>res\<close>): such a parameter is
  shadowed by that variable, and the engine then raises its error or differentiates another
  expression. Functions with such parameter names are outside this model.
\<close>

fun jacob_rows :: "bool \<Rightarrow> nat list \<Rightarrow> store \<Rightarrow> expr option list \<Rightarrow> error + real list list" where
  "jacob_rows lib nodes s [] = Inr []"
| "jacob_rows lib nodes s (None # rest) = Inl SyntaxError"
| "jacob_rows lib nodes s (Some function # rest) =
     bindE (eval lib (map NodeV nodes) function s) (\<lambda>(res, s').
     bindE (mapE (\<lambda>elem. grad_entry s' elem res) nodes) (\<lambda>row.
     bindE (jacob_rows lib nodes s rest) (\<lambda>jacob. Inr (row # jacob))))"

text \<open>The body of the \<open>try\<close> statement.\<close>

definition reverse_try :: "autodiff \<Rightarrow> real list \<Rightarrow> nat list \<Rightarrow> store \<Rightarrow> ret \<Rightarrow> error + py_value" where
  "reverse_try self inputs nodes s result =
     (case result of
        One v \<Rightarrow> Inl TypeError
      | Many vs \<Rightarrow>
          (let n_func = length vs in
           bindE (funcs_lst (returns (funcs self))) (\<lambda>lst.
           (let pkg = remdups (filter (\<lambda>name. name \<notin> set exclude_pkg) (pkg_names (funcs self)))
            in if 1 < length pkg then Inl NameError
               else
                 bindE (jacob_rows (length pkg = 1) nodes s (take n_func lst)) (\<lambda>jacob.
                 if length inputs = 1 then Inr (Vector (concat jacob))
                 else Inr (Matrix jacob))))))"

text \<open>\<open>try: ... except: raise ValueError(err_msg)\<close>\<close>

definition reverse_multi :: "autodiff \<Rightarrow> real list \<Rightarrow> nat list \<Rightarrow> store \<Rightarrow> ret \<Rightarrow> error + py_value" where
  "reverse_multi self inputs nodes s result =
     (case reverse_try self inputs nodes s result of
        Inl e \<Rightarrow> Inl MultiOutputParseFailure
      | Inr jacob \<Rightarrow> Inr jacob)"

text \<open>\<open>Reverse.reverse\<close>\<close>

definition reverse :: "autodiff \<Rightarrow> inputs \<Rightarrow> error + py_value" where
  "reverse self inputs0 =
     (let inputs = as_list inputs0 in
      if length inputs \<noteq> n_inputs self then Inl DimensionMismatch
      else case make_nodes inputs [] of (nodes, s0) \<Rightarrow>
        bindE (call (funcs self) (map NodeV nodes) s0) (\<lambda>(result, s).
        case result of
          One (NodeV res) \<Rightarrow>
            (if length inputs = 1 then
               bindE (grad_entry s (nodes ! 0) (NodeV res)) (\<lambda>v. Inr (Number v))
             else
               bindE (mapE (\<lambda>elem. grad_entry s elem (NodeV res)) nodes) (\<lambda>vs.
               Inr (Vector vs)))
        | _ \<Rightarrow> reverse_multi self inputs nodes s result))"

section \<open>The closed forms of the specification\<close>

text \<open>
  The value and the derivative the specification lists for each library function
  (sin to cos, cos to -sin, tan to sec squared, exp to exp, sqrt to 1/(2 sqrt z), log to 1/z,
  logb to 1/(z ln base), arcsin to 1/sqrt(1 - z squared), arccos to -1/sqrt(1 - z squared),
  arctan to 1/(1 + z squared), sinh to cosh, cosh to sinh, tanh to 1 - tanh squared, logistic
  to sigma(z)(1 - sigma(z))), and the arguments at which the function and this derivative
  are defined. These three definitions follow the specification, not the code.
\<close>

fun elem_value :: "elem \<Rightarrow> real \<Rightarrow> real" where
  "elem_value Sin z = sin z"
| "elem_value Cos z = cos z"
| "elem_value Tan z = tan z"
| "elem_value Exp z = exp z"
| "elem_value Sqrt z = sqrt z"
| "elem_value Log z = ln z"
| "elem_value (Logb base) z = log base z"
| "elem_value Arcsin z = arcsin z"
| "elem_value Arccos z = arccos z"
| "elem_value Arctan z = arctan z"
| "elem_value Sinh z = sinh z"
| "elem_value Cosh z = cosh z"
| "elem_value Tanh z = tanh z"
| "elem_value Logistic z = 1 / (1 + exp (- z))"

fun elem_deriv :: "elem \<Rightarrow> real \<Rightarrow> real" where
  "elem_deriv Sin z = cos z"
| "elem_deriv Cos z = - sin z"
| "elem_deriv Tan z = 1 / (cos z)\<^sup>2"
| "elem_deriv Exp z = exp z"
| "elem_deriv Sqrt z = 1 / (2 * sqrt z)"
| "elem_deriv Log z = 1 / z"
| "elem_deriv (Logb base) z = 1 / (z * ln base)"
| "elem_deriv Arcsin z = 1 / sqrt (1 - z\<^sup>2)"
| "elem_deriv Arccos z = - (1 / sqrt (1 - z\<^sup>2))"
| "elem_deriv Arctan z = 1 / (1 + z\<^sup>2)"
| "elem_deriv Sinh z = cosh z"
| "elem_deriv Cosh z = sinh z"
| "elem_deriv Tanh z = 1 - (tanh z)\<^sup>2"
| "elem_deriv Logistic z = (1 / (1 + exp (- z))) * (1 - 1 / (1 + exp (- z)))"

fun elem_defined :: "elem \<Rightarrow> real \<Rightarrow> bool" where
  "elem_defined Tan z = (cos z \<noteq> 0)"
| "elem_defined Sqrt z = (0 < z)"
| "elem_defined Log z = (0 < z)"
| "elem_defined (Logb base) z = (0 < z \<and> 0 < base \<and> base \<noteq> 1)"
| "elem_defined Arcsin z = (- 1 < z \<and> z < 1)"
| "elem_defined Arccos z = (- 1 < z \<and> z < 1)"
| "elem_defined _ z = True"

text \<open>
  The seeds of one pass of the forward engine over several inputs, in the words of the
  specification: input \<open>idx\<close> carries derivative 1 and every other input derivative 0.
\<close>

definition basis_seed :: "real list \<Rightarrow> nat \<Rightarrow> dual list" where
  "basis_seed xs idx =
     map (\<lambda>j. \<lparr>real_part = xs ! j, dual_part = (if j = idx then 1 else 0)\<rparr>) [0..<length xs]"

section \<open>The graph invariant, paths and path sums of the specification\<close>

text \<open>
  The invariant of the graph in the words of the specification: a node is only ever the
  parent of nodes created later, that is, every edge of the node at position \<open>i\<close> points
  to a live position beyond \<open>i\<close>.
\<close>

definition wf_store :: "store \<Rightarrow> bool" where
  "wf_store s =
     (\<forall>i < length s. \<forall>e \<in> set (partial_derivs (s ! i)). i < fst e \<and> fst e < length s)"

text \<open>
  A directed edge-path from a node: the positions, in the successive edge lists, of the
  edges taken. \<open>walk\<close> follows them and gives the node reached and the product of the
  local partials along the way. The paths of the specification have at least one edge.
\<close>

fun walk :: "store \<Rightarrow> nat \<Rightarrow> nat list \<Rightarrow> (nat \<times> real) option" where
  "walk s n [] = Some (n, 1)"
| "walk s n (i # rest) =
     (if n < length s \<and> i < length (partial_derivs (s ! n)) then
        (case partial_derivs (s ! n) ! i of (child, partial_deriv) \<Rightarrow>
           map_option (\<lambda>(m, w). (m, partial_deriv * w)) (walk s child rest))
      else None)"

definition paths :: "store \<Rightarrow> nat \<Rightarrow> nat \<Rightarrow> nat list set" where
  "paths s a b = {p. p \<noteq> [] \<and> (\<exists>w. walk s a p = Some (b, w))}"

definition path_weight :: "store \<Rightarrow> nat \<Rightarrow> nat list \<Rightarrow> real" where
  "path_weight s a p = (case walk s a p of Some (b, w) \<Rightarrow> w | None \<Rightarrow> 0)"

definition path_sum :: "store \<Rightarrow> nat \<Rightarrow> nat \<Rightarrow> real" where
  "path_sum s a b = (\<Sum>p \<in> paths s a b. path_weight s a p)"

definition acyclic_store :: "store \<Rightarrow> bool" where
  "acyclic_store s = (\<forall>n. paths s n n = {})"

text \<open>
  What one operation on nodes may do to the store: allocate one node without edges, leave
  the values of the nodes there unchanged, and append to their edge lists only edges to
  the new node.
\<close>

definition extends :: "store \<Rightarrow> store \<Rightarrow> bool" where
  "extends s s' =
     (length s' = Suc (length s) \<and> partial_derivs (s' ! length s) = []
      \<and> (\<forall>i < length s. node_real (s' ! i) = node_real (s ! i)
            \<and> (\<exists>es. partial_derivs (s' ! i) = partial_derivs (s ! i) @ es
                  \<and> (\<forall>e \<in> set es. fst e = length s))))"

fun valid_ref :: "store \<Rightarrow> operand \<Rightarrow> bool" where
  "valid_ref s (NodeV n) = (n < length s)"
| "valid_ref s _ = True"

fun is_node :: "operand \<Rightarrow> bool" where
  "is_node (NodeV n) = True"
| "is_node _ = False"

text \<open>
  One operator or library call on any operands: on numbers and duals the store is
  untouched; with a node among the operands the store is extended and the result is the
  new node.
\<close>

definition step :: "store \<Rightarrow> store \<Rightarrow> operand \<Rightarrow> bool" where
  "step s s' r = ((s' = s \<and> \<not> is_node r) \<or> (extends s s' \<and> r = NodeV (length s)))"

definition grows :: "store \<Rightarrow> store \<Rightarrow> bool" where
  "grows s s' = (length s \<le> length s' \<and> (\<forall>i < length s. node_real (s' ! i) = node_real (s ! i)))"

text \<open>
  Two auxiliary notions for the proofs about path sums: the paths from a node to another
  with the empty path among them, and what the edges of one list contribute to a node.
\<close>

definition walks :: "store \<Rightarrow> nat \<Rightarrow> nat \<Rightarrow> nat list set" where
  "walks s a b = {p. \<exists>w. walk s a p = Some (b, w)}"

definition edge_sum :: "store \<Rightarrow> (nat \<times> real) list \<Rightarrow> nat \<Rightarrow> real" where
  "edge_sum s es n = (\<Sum>e \<leftarrow> es. snd e * ((if fst e = n then 1 else 0) + path_sum s (fst e) n))"

text \<open>
  The user function that applies one library function to its one parameter,
  \<open>lambda x: ef.f(x)\<close>.
\<close>

definition library_function :: "elem \<Rightarrow> func" where
  "library_function f =
     \<lparr>co_argcount = 1, returns = Single (Call f (Var 0)), pkg_names = [''ef'']\<rparr>"

text \<open>
  The shapes of the specification for a function of \<open>N\<close> inputs: one output gives a number
  when \<open>N = 1\<close> and a vector of length \<open>N\<close> otherwise; a list of \<open>M\<close> outputs gives a
  vector of length \<open>M\<close> when \<open>N = 1\<close> and otherwise a matrix of \<open>M\<close> rows, one per output,
  each of length \<open>N\<close>.
\<close>

fun has_shape :: "body \<Rightarrow> nat \<Rightarrow> py_value \<Rightarrow> bool" where
  "has_shape (Single e) N (Number v) = (N = 1)"
| "has_shape (Single e) N (Vector vs) = (N \<noteq> 1 \<and> length vs = N)"
| "has_shape (Single e) N (Matrix rows) = False"
| "has_shape (Multi es) N (Number v) = False"
| "has_shape (Multi es) N (Vector vs) = (N = 1 \<and> length vs = length es)"
| "has_shape (Multi es) N (Matrix rows) =
     (N \<noteq> 1 \<and> length rows = length es \<and> list_all (\<lambda>row. length row = N) rows)"

text \<open>What a call of the function returns has the form its body gives it.\<close>

fun ret_of :: "body \<Rightarrow> ret \<Rightarrow> bool" where
  "ret_of (Single e) (One v) = True"
| "ret_of (Multi es) (Many vs) = (length vs = length es)"
| "ret_of _ _ = False"

text \<open>The function \<open>lambda x: [ef.logb(x, 2), x]\<close>.\<close>

definition logb_and_identity :: func where
  "logb_and_identity =
     \<lparr>co_argcount = 1, returns = Multi [Call (Logb 2) (Var 0), Var 0], pkg_names = [''ef'']\<rparr>"

text \<open>The errors that evaluating an expression can raise.\<close>

definition user_error :: "error \<Rightarrow> bool" where
  "user_error err = (err = TypeError \<or> err = ZeroDivisionError \<or> err = NameError)"





text \<open>
  Two operands, each in its own store, that are the same number or nodes of the same value.
\<close>

definition same_value :: "store \<Rightarrow> operand \<Rightarrow> store \<Rightarrow> operand \<Rightarrow> bool" where
  "same_value s v t w =
     (case (v, w) of
        (Num a, Num b) \<Rightarrow> a = b
      | (NodeV n, NodeV m) \<Rightarrow> n < length s \<and> m < length t \<and> node_real (s ! n) = node_real (t ! m)
      | _ \<Rightarrow> False)"

section \<open>Facts about the numeric primitives\<close>

lemma bindE_Inr [simp]: "bindE (Inr v) f = f v"
  by (simp add: bindE_def)

lemma bindE_Inl [simp]: "bindE (Inl e) f = Inl e"
  by (simp add: bindE_def)

lemma py_div_nonzero: "b \<noteq> 0 \<Longrightarrow> py_div a b = Inr (a / b)"
  by (simp add: py_div_def)

lemma py_div_zero: "py_div a 0 = Inl ZeroDivisionError"
  by (simp add: py_div_def)

lemma py_pow_two: "py_pow x 2 = Inr (x\<^sup>2)"
  by (simp add: py_pow_def)

lemma py_pow_one: "py_pow x 1 = Inr x"
  by (simp add: py_pow_def)

lemma py_pow_pos: "0 < x \<Longrightarrow> py_pow x y = Inr (x powr y)"
proof -
  assume x: "0 < x"
  show ?thesis
  proof (cases "y \<in> \<int>")
    case False
    with x show ?thesis by (simp add: py_pow_def)
  next
    case True
    then obtain k :: int where k: "y = of_int k" by (auto elim: Ints_cases)
    show ?thesis
    proof (cases "0 \<le> k")
      case True
      with x k show ?thesis
        by (simp add: py_pow_def powr_realpow [symmetric])
    next
      case False
      then have "x powr y = 1 / x ^ nat (- k)"
        using x k by (simp add: powr_int field_simps)
      with x k False show ?thesis
        by (simp add: py_pow_def)
    qed
  qed
qed

section \<open>The arithmetic table of dual numbers\<close>

text \<open>
  C2. For dual numbers \<open>a\<close>, \<open>b\<close> and a scalar \<open>k\<close>: addition and subtraction are
  component-wise, a scalar contributing derivative 0; the product follows the product
  rule; the quotient by a dual with non-zero value follows the quotient rule; a power
  with a dual exponent, over a positive base, is \<open>a.real ** b.real\<close> with derivative
  \<open>a.real ** b.real * (ln a.real * b.dual + b.real * a.dual / a.real)\<close>; a power with
  a scalar exponent is \<open>a.real ** k\<close> with derivative \<open>k * a.real ** (k - 1) * a.dual\<close>,
  wherever Python defines the two powers.
\<close>

theorem dual_arithmetic_table:
  "dual_add a (DualV b) =
     Inr \<lparr>real_part = real_part a + real_part b, dual_part = dual_part a + dual_part b\<rparr>
   \<and> dual_add a (Num k) = Inr \<lparr>real_part = real_part a + k, dual_part = dual_part a\<rparr>
   \<and> dual_sub a (DualV b) =
     Inr \<lparr>real_part = real_part a - real_part b, dual_part = dual_part a - dual_part b\<rparr>
   \<and> dual_sub a (Num k) = Inr \<lparr>real_part = real_part a - k, dual_part = dual_part a\<rparr>
   \<and> dual_mul a (DualV b) =
     Inr \<lparr>real_part = real_part a * real_part b,
          dual_part = real_part a * dual_part b + dual_part a * real_part b\<rparr>
   \<and> (real_part b \<noteq> 0 \<longrightarrow>
       dual_truediv a (DualV b) =
         Inr \<lparr>real_part = real_part a / real_part b,
              dual_part = (dual_part a * real_part b - real_part a * dual_part b)
                            / (real_part b)\<^sup>2\<rparr>)
   \<and> (0 < real_part a \<longrightarrow>
       dual_pow a (DualV b) =
         Inr \<lparr>real_part = real_part a powr real_part b,
              dual_part = real_part a powr real_part b
                * (ln (real_part a) * dual_part b + real_part b * dual_part a / real_part a)\<rparr>)
   \<and> (py_pow (real_part a) k = Inr p \<and> py_pow (real_part a) (k - 1) = Inr q \<longrightarrow>
       dual_pow a (Num k) = Inr \<lparr>real_part = p, dual_part = k * q * dual_part a\<rparr>)"
  by (simp add: py_div_nonzero py_pow_pos mult.commute)

theorem dual_arithmetic_table_witness:
  "dual_truediv \<lparr>real_part = 3, dual_part = 4\<rparr> (DualV \<lparr>real_part = 1, dual_part = 2\<rparr>)
     = Inr \<lparr>real_part = 3, dual_part = - 2\<rparr>
   \<and> dual_pow \<lparr>real_part = 1, dual_part = 2\<rparr> (DualV \<lparr>real_part = 3, dual_part = 4\<rparr>)
     = Inr \<lparr>real_part = 1, dual_part = 6\<rparr>
   \<and> dual_pow \<lparr>real_part = 2, dual_part = 4\<rparr> (Num 2)
     = Inr \<lparr>real_part = 4, dual_part = 16\<rparr>"
  using dual_arithmetic_table [of "\<lparr>real_part = 3, dual_part = 4\<rparr>"
          "\<lparr>real_part = 1, dual_part = 2\<rparr>" 0 0 0]
        dual_arithmetic_table [of "\<lparr>real_part = 1, dual_part = 2\<rparr>"
          "\<lparr>real_part = 3, dual_part = 4\<rparr>" 0 0 0]
        dual_arithmetic_table [of "\<lparr>real_part = 2, dual_part = 4\<rparr>"
          "\<lparr>real_part = 1, dual_part = 2\<rparr>" 2 4 2]
  by (simp add: py_pow_two py_pow_one)

section \<open>The elementary functions agree with the closed forms\<close>

lemma py_pow_minus_half: "0 < x \<Longrightarrow> py_pow x (- (1 / 2)) = Inr (1 / sqrt x)"
  by (simp add: py_pow_pos powr_minus powr_half_sqrt field_simps)

lemma append_deriv_Node:
  "z < length s \<Longrightarrow>
   append_deriv z e (s @ [nd]) =
     (s[z := (s ! z)\<lparr>partial_derivs := partial_derivs (s ! z) @ [e]\<rparr>]) @ [nd]"
  by (simp add: append_deriv_def nth_append list_update_append)

text \<open>
  C1. For each of the fourteen library functions \<open>f\<close> and each argument at which \<open>f\<close>
  and its derivative are defined: on a dual number the result is the dual number with value
  \<open>f(z.real)\<close> and derivative \<open>f'(z.real) * z.dual\<close>, the store of nodes untouched; on a
  node the call allocates exactly one node, with value \<open>f(z.real)\<close> and no edges, appends
  the single edge \<open>(child, f'(z.real))\<close> to the edge list of \<open>z\<close> and returns the child;
  on a number the result is the number \<open>f(z)\<close>.
\<close>

theorem elementary_functions:
  "(elem_defined f (real_part z) \<longrightarrow>
      call_elem f (DualV z) s =
        Inr (DualV \<lparr>real_part = elem_value f (real_part z),
                    dual_part = elem_deriv f (real_part z) * dual_part z\<rparr>, s))
   \<and> (n < length s \<and> elem_defined f (node_real (s ! n)) \<longrightarrow>
      call_elem f (NodeV n) s =
        Inr (NodeV (length s),
             s[n := (s ! n)\<lparr>partial_derivs :=
                    partial_derivs (s ! n) @ [(length s, elem_deriv f (node_real (s ! n)))]\<rparr>]
               @ [\<lparr>node_real = elem_value f (node_real (s ! n)), partial_derivs = []\<rparr>]))
   \<and> (elem_defined f x \<longrightarrow> call_elem f (Num x) s = Inr (Num (elem_value f x), s))"
  by (cases f)
     (simp_all add: Node_def append_deriv_Node py_div_nonzero py_pow_minus_half
        logistic_f_def log_def mult.commute)


theorem elementary_functions_witness:
  "call_elem Log (DualV \<lparr>real_part = 1, dual_part = 1\<rparr>) [] =
     Inr (DualV \<lparr>real_part = 0, dual_part = 1\<rparr>, [])
   \<and> call_elem Log (NodeV 0) [\<lparr>node_real = 1, partial_derivs = []\<rparr>] =
     Inr (NodeV 1, [\<lparr>node_real = 1, partial_derivs = [(1, 1)]\<rparr>,
                    \<lparr>node_real = 0, partial_derivs = []\<rparr>])
   \<and> call_elem Log (Num 1) [] = Inr (Num 0, [])"
  using elementary_functions [of Log "\<lparr>real_part = 1, dual_part = 1\<rparr>" "[]" 0 1]
        elementary_functions [of Log "\<lparr>real_part = 1, dual_part = 1\<rparr>"
          "[\<lparr>node_real = 1, partial_derivs = []\<rparr>]" 0 1]
  by simp

section \<open>Subtracting a node from a number\<close>

text \<open>
  C8. For a number \<open>k\<close> and a node \<open>n\<close>, \<open>k - n\<close> succeeds: it allocates exactly one
  node, whose value is \<open>k - n.real\<close> and which has no edges, appends to \<open>n\<close> the single
  edge \<open>(child, -1)\<close> and returns the child.
\<close>

theorem scalar_minus_node:
  "n < length s \<Longrightarrow>
   binary OpSub (Num k) (NodeV n) s =
     Inr (NodeV (length s),
          s[n := (s ! n)\<lparr>partial_derivs := partial_derivs (s ! n) @ [(length s, - 1)]\<rparr>]
            @ [\<lparr>node_real = k - node_real (s ! n), partial_derivs = []\<rparr>])"
  by (simp add: Node_def append_deriv_Node)

theorem scalar_minus_node_witness:
  "binary OpSub (Num 2.5) (NodeV 0) [\<lparr>node_real = 1, partial_derivs = []\<rparr>] =
     Inr (NodeV 1, [\<lparr>node_real = 1, partial_derivs = [(1, - 1)]\<rparr>,
                    \<lparr>node_real = 1.5, partial_derivs = []\<rparr>])"
  using scalar_minus_node [of 0 "[\<lparr>node_real = 1, partial_derivs = []\<rparr>]" "2.5"]
  by simp

section \<open>Which errors an evaluation can raise\<close>

lemma bindE_eq_Inl: "bindE m f = Inl err \<longleftrightarrow> m = Inl err \<or> (\<exists>v. m = Inr v \<and> f v = Inl err)"
  by (cases m) simp_all

lemma bindE_eq_Inr: "bindE m f = Inr y \<longleftrightarrow> (\<exists>v. m = Inr v \<and> f v = Inr y)"
  by (cases m) simp_all

lemma py_div_error: "py_div a b = Inl err \<Longrightarrow> user_error err"
  by (auto simp: py_div_def user_error_def split: if_splits)

lemma py_pow_error: "py_pow a b = Inl err \<Longrightarrow> user_error err"
  by (auto simp: py_pow_def user_error_def split: if_splits)

lemma num_binop_error: "num_binop op a b = Inl err \<Longrightarrow> user_error err"
  by (cases op) (auto dest: py_div_error py_pow_error)

lemma dual_binop_error: "dual_binop op a b = Inl err \<Longrightarrow> user_error err"
  by (cases op; cases b)
     (auto simp: bindE_eq_Inl user_error_def Let_def dest!: py_div_error py_pow_error)

lemma dual_rbinop_error: "dual_rbinop op a b = Inl err \<Longrightarrow> user_error err"
  by (cases op; cases b)
     (auto simp: bindE_eq_Inl user_error_def Let_def dest!: py_div_error py_pow_error)

lemma node_binop_error: "node_binop op a b s = Inl err \<Longrightarrow> user_error err"
  by (cases op; cases b)
     (auto simp: bindE_eq_Inl user_error_def Node_def dest!: py_div_error py_pow_error)

lemma node_rbinop_error: "node_rbinop op a b s = Inl err \<Longrightarrow> user_error err"
  by (cases op; cases b)
     (auto simp: bindE_eq_Inl user_error_def Node_def dest!: py_div_error py_pow_error)

lemma binary_error: "binary op a b s = Inl err \<Longrightarrow> user_error err"
  by (cases "(op, a, b, s)" rule: binary.cases)
     (auto simp: bindE_eq_Inl user_error_def[of TypeError]
       dest: dual_binop_error dual_rbinop_error node_binop_error node_rbinop_error num_binop_error)

lemma unary_neg_error: "unary_neg a s = Inl err \<Longrightarrow> user_error err"
  by (cases a) (auto simp: user_error_def node_neg_def Node_def)

lemma call_elem_error: "call_elem f z s = Inl err \<Longrightarrow> user_error err"
  by (cases f; cases z)
     (auto simp: bindE_eq_Inl user_error_def Node_def dest!: py_div_error py_pow_error)

lemma eval_error: "eval lib args e s = Inl err \<Longrightarrow> user_error err"
proof (induction e arbitrary: s err)
  case (Var i) then show ?case by (auto simp: user_error_def split: if_splits)
next
  case (Const c) then show ?case by simp
next
  case (Neg e) then show ?case by (auto simp: bindE_eq_Inl dest: unary_neg_error)
next
  case (BinOp op l r) then show ?case by (auto simp: bindE_eq_Inl dest: binary_error)
next
  case (Call f e) then show ?case
    by (auto simp: bindE_eq_Inl user_error_def[of NameError] dest: call_elem_error split: if_splits)
qed

lemma eval_list_error: "eval_list lib args es s = Inl err \<Longrightarrow> user_error err"
  by (induction es arbitrary: s err) (auto simp: bindE_eq_Inl dest: eval_error)

lemma call_error: "call f args s = Inl err \<Longrightarrow> user_error err"
  by (auto simp: call_def bindE_eq_Inl user_error_def[of TypeError]
        dest: eval_error eval_list_error split: if_splits body.splits)


lemma passes_error: "passes f duals idxs = Inl err \<Longrightarrow> user_error err"
  by (induction idxs arbitrary: duals err)
     (auto simp: bindE_eq_Inl Let_def dest: call_error)

lemma mapE_error:
  "mapE g xs = Inl err \<Longrightarrow> \<exists>x \<in> set xs. g x = Inl err"
  by (induction xs arbitrary: err) (auto simp: bindE_eq_Inl)

lemma attr_real_error: "attr_real s v = Inl err \<Longrightarrow> err = AttributeError"
  by (cases v) auto

lemma attr_dual_error: "attr_dual v = Inl err \<Longrightarrow> err = AttributeError"
  by (cases v) auto

lemma attr_one_error:
  "attr_one attr r = Inl err \<Longrightarrow> err = AttributeError \<or> (\<exists>v. attr v = Inl err)"
  by (cases r) auto

lemma attrs_error:
  "attrs attr r = Inl err \<Longrightarrow> err = TypeError \<or> (\<exists>v. attr v = Inl err)"
  by (cases r) (auto dest: mapE_error)

lemma real_components_error: "real_components r = Inl err \<Longrightarrow> err \<noteq> DimensionMismatch"
  by (auto simp: real_components_def bindE_eq_Inl
        dest!: mapE_error attr_one_error attrs_error attr_real_error
        split: fwd.splits list.splits if_splits)

lemma dual_components_error: "dual_components r = Inl err \<Longrightarrow> err \<noteq> DimensionMismatch"
  by (auto simp: dual_components_def bindE_eq_Inl
        dest!: mapE_error attr_one_error attrs_error attr_dual_error
        split: fwd.splits list.splits if_splits)

lemma user_error_not_dim: "user_error err \<Longrightarrow> err \<noteq> DimensionMismatch"
  by (auto simp: user_error_def)

lemma dual_forward_dim:
  "dual_forward self inputs = Inl DimensionMismatch \<longleftrightarrow> length (as_list inputs) \<noteq> n_inputs self"
  by (auto simp: dual_forward_def Let_def bindE_eq_Inl
        dest!: call_error passes_error user_error_not_dim)

lemma gradiant_error: "gradiant s r = Inl err \<Longrightarrow> err = RecursionError"
  by (auto simp: gradiant_def split: option.splits)

lemma grad_entry_error: "grad_entry s r v = Inl err \<Longrightarrow> err = RecursionError \<or> err = TypeError"
  by (cases v) (auto simp: bindE_eq_Inl dest: gradiant_error)

lemma reverse_multi_error:
  "reverse_multi self inputs nodes s result = Inl err \<Longrightarrow> err = MultiOutputParseFailure"
  by (auto simp: reverse_multi_def split: sum.splits)

lemma reverse_get_value_dim:
  "reverse_get_value self inputs = Inl DimensionMismatch \<longleftrightarrow>
     length (as_list inputs) \<noteq> n_inputs self"
  by (auto simp: reverse_get_value_def Let_def bindE_eq_Inl
        dest!: call_error user_error_not_dim mapE_error attr_one_error attrs_error attr_real_error
        split: prod.splits if_splits)

lemma reverse_dim:
  "reverse self inputs = Inl DimensionMismatch \<longleftrightarrow> length (as_list inputs) \<noteq> n_inputs self"
  by (auto simp: reverse_def Let_def bindE_eq_Inl
        dest!: call_error user_error_not_dim mapE_error gradiant_error reverse_multi_error
        split: prod.splits if_splits ret.splits operand.splits)

section \<open>The check of the number of inputs\<close>

text \<open>
  C6. When the number of inputs (a bare number counting as one) differs from the arity
  of the captured function, the value and the derivative operation of both engines raise
  the dimension error, whatever the function is: the function is not called. When the
  number equals the arity, none of the four raises that error.
\<close>

theorem dimension_mismatch:
  "(length (as_list inputs) \<noteq> co_argcount f \<longrightarrow>
      forward_get_value (AutoDiff f) inputs = Inl DimensionMismatch
      \<and> forward (AutoDiff f) inputs = Inl DimensionMismatch
      \<and> reverse_get_value (AutoDiff f) inputs = Inl DimensionMismatch
      \<and> reverse (AutoDiff f) inputs = Inl DimensionMismatch)
   \<and> (length (as_list inputs) = co_argcount f \<longrightarrow>
      forward_get_value (AutoDiff f) inputs \<noteq> Inl DimensionMismatch
      \<and> forward (AutoDiff f) inputs \<noteq> Inl DimensionMismatch
      \<and> reverse_get_value (AutoDiff f) inputs \<noteq> Inl DimensionMismatch
      \<and> reverse (AutoDiff f) inputs \<noteq> Inl DimensionMismatch)"
proof -
  have n: "n_inputs (AutoDiff f) = co_argcount f" by (simp add: AutoDiff_def)
  have fv: "forward_get_value (AutoDiff f) inputs = Inl DimensionMismatch \<longleftrightarrow>
      length (as_list inputs) \<noteq> co_argcount f"
    using dual_forward_dim [of "AutoDiff f" inputs] n
    by (auto simp: forward_get_value_def bindE_eq_Inl dest: real_components_error)
  have fd: "forward (AutoDiff f) inputs = Inl DimensionMismatch \<longleftrightarrow>
      length (as_list inputs) \<noteq> co_argcount f"
    using dual_forward_dim [of "AutoDiff f" inputs] n
    by (auto simp: forward_def bindE_eq_Inl dest: dual_components_error)
  show ?thesis
    using fv fd reverse_get_value_dim [of "AutoDiff f" inputs] reverse_dim [of "AutoDiff f" inputs] n
    by simp
qed


theorem dimension_mismatch_witness:
  "forward_get_value (AutoDiff \<lparr>co_argcount = 2, returns = Single (BinOp OpDiv (Var 0) (Const 0)),
       pkg_names = []\<rparr>) (Seq [1, 2, 3]) = Inl DimensionMismatch
   \<and> reverse (AutoDiff \<lparr>co_argcount = 2, returns = Single (BinOp OpDiv (Var 0) (Const 0)),
       pkg_names = []\<rparr>) (Seq [1, 2, 3]) = Inl DimensionMismatch
   \<and> reverse (AutoDiff \<lparr>co_argcount = 1, returns = Single (BinOp OpDiv (Var 0) (Const 0)),
       pkg_names = []\<rparr>) (Scalar 3) \<noteq> Inl DimensionMismatch"
  using dimension_mismatch [of "Seq [1, 2, 3]"
          "\<lparr>co_argcount = 2, returns = Single (BinOp OpDiv (Var 0) (Const 0)), pkg_names = []\<rparr>"]
        dimension_mismatch [of "Scalar 3"
          "\<lparr>co_argcount = 1, returns = Single (BinOp OpDiv (Var 0) (Const 0)), pkg_names = []\<rparr>"]
  by simp

section \<open>The seeds of the forward engine's value operation\<close>

lemma bindE_assoc: "bindE (bindE m f) g = bindE m (\<lambda>v. bindE (f v) g)"
  by (cases m) simp_all

lemma mapE_cong:
  "(\<And>x. x \<in> set xs \<Longrightarrow> g x = h x) \<Longrightarrow> mapE g xs = mapE h xs"
  by (induction xs) simp_all

lemma passes_basis:
  "\<forall>d \<in> set duals. dual_part d = 0 \<Longrightarrow> \<forall>i \<in> set idxs. i < length duals \<Longrightarrow>
   passes f duals idxs =
     mapE (\<lambda>idx. bindE (call f (map DualV
              (duals[idx := \<lparr>real_part = real_part (duals ! idx), dual_part = 1\<rparr>])) [])
            (\<lambda>(r, s). Inr r)) idxs"
proof (induction idxs)
  case Nil
  then show ?case by simp
next
  case (Cons idx rest)
  have idx: "idx < length duals" using Cons.prems(2) by simp
  with Cons.prems(1) have "dual_part (duals ! idx) = 0" by simp
  then have restore: "duals[idx := \<lparr>real_part = real_part (duals ! idx), dual_part = 0\<rparr>] = duals"
    by (simp add: list_update_same_conv idx)
  have IH: "passes f duals rest =
     mapE (\<lambda>idx. bindE (call f (map DualV
              (duals[idx := \<lparr>real_part = real_part (duals ! idx), dual_part = 1\<rparr>])) [])
            (\<lambda>(r, s). Inr r)) rest"
    using Cons by simp
  show ?case
    by (cases "call f (map DualV
              (duals[idx := \<lparr>real_part = real_part (duals ! idx), dual_part = 1\<rparr>])) []")
       (simp_all add: Dual_def idx restore IH split: prod.splits)
qed

lemma basis_seed_update:
  "idx < length xs \<Longrightarrow>
   (map (\<lambda>input. Dual input (Some 0)) xs)
     [idx := \<lparr>real_part = real_part (map (\<lambda>input. Dual input (Some 0)) xs ! idx), dual_part = 1\<rparr>]
   = basis_seed xs idx"
  by (rule nth_equalityI) (auto simp: basis_seed_def Dual_def nth_list_update)

lemma passes_seeds:
  "passes f (map (\<lambda>input. Dual input (Some 0)) xs) [0..<length xs] =
     mapE (\<lambda>idx. bindE (call f (map DualV (basis_seed xs idx)) []) (\<lambda>(r, s). Inr r))
       [0..<length xs]"
proof -
  have "mapE (\<lambda>idx. bindE (call f (map DualV
              ((map (\<lambda>input. Dual input (Some 0)) xs)
                 [idx := \<lparr>real_part = real_part (map (\<lambda>input. Dual input (Some 0)) xs ! idx),
                          dual_part = 1\<rparr>])) [])
            (\<lambda>(r, s). Inr r)) [0..<length xs]
      = mapE (\<lambda>idx. bindE (call f (map DualV (basis_seed xs idx)) []) (\<lambda>(r, s). Inr r))
          [0..<length xs]"
    by (rule mapE_cong) (simp del: nth_map add: basis_seed_update)
  then show ?thesis
    using passes_basis [of "map (\<lambda>input. Dual input (Some 0)) xs" "[0..<length xs]" f]
    by (simp add: Dual_def)
qed


lemma dual_forward_one:
  "as_list inputs = [x] \<Longrightarrow> co_argcount f = 1 \<Longrightarrow>
   dual_forward (AutoDiff f) inputs =
     bindE (call f [DualV \<lparr>real_part = x, dual_part = 1\<rparr>] []) (\<lambda>(r, s). Inr (Uni r))"
  by (simp add: dual_forward_def AutoDiff_def Dual_def)

lemma dual_forward_many:
  "length xs = co_argcount f \<Longrightarrow> length xs \<noteq> 1 \<Longrightarrow>
   dual_forward (AutoDiff f) (Seq xs) =
     bindE (mapE (\<lambda>idx. bindE (call f (map DualV (basis_seed xs idx)) []) (\<lambda>(r, s). Inr r))
              [0..<length xs])
       (\<lambda>jacob. Inr (Jacob jacob))"
  using passes_seeds [of f xs] by (simp add: dual_forward_def AutoDiff_def)

text \<open>
  C9 claims that the value operation seeds every input with derivative 0. It does not:
  \<open>get_value\<close> calls \<open>_dual_forward\<close>, which builds \<open>Dual(input)\<close> for a function of
  one input, and the constructor's default derivative is 1. The function that returns its
  argument shows the dual number it was called with.
\<close>

theorem forward_value_seed_counterexample:
  "dual_forward (AutoDiff \<lparr>co_argcount = 1, returns = Single (Var 0), pkg_names = []\<rparr>) (Seq [3])
     = Inr (Uni (One (DualV \<lparr>real_part = 3, dual_part = 1\<rparr>)))
   \<and> forward_get_value (AutoDiff \<lparr>co_argcount = 1, returns = Single (Var 0), pkg_names = []\<rparr>)
       (Seq [3]) = Inr (Number 3)"
  by (simp add: forward_get_value_def dual_forward_def AutoDiff_def Dual_def call_def
        real_components_def)

text \<open>
  C9, amended. The value operation is \<open>_dual_forward\<close> followed by reading the values,
  and \<open>_dual_forward\<close> calls the function as for the derivative: a function of one input
  once, on the dual number with the input's value and derivative 1; a function of several
  inputs once per input \<open>idx\<close>, on the inputs seeded with derivative 1 at \<open>idx\<close> and 0
  elsewhere.
\<close>

theorem forward_value_seeding:
  "forward_get_value (AutoDiff f) inputs =
     bindE (dual_forward (AutoDiff f) inputs) real_components
   \<and> (as_list inputs = [x] \<and> co_argcount f = 1 \<longrightarrow>
      dual_forward (AutoDiff f) inputs =
        bindE (call f [DualV \<lparr>real_part = x, dual_part = 1\<rparr>] []) (\<lambda>(r, s). Inr (Uni r)))
   \<and> (length xs = co_argcount f \<and> length xs \<noteq> 1 \<longrightarrow>
      dual_forward (AutoDiff f) (Seq xs) =
        bindE (mapE (\<lambda>idx. bindE (call f (map DualV (basis_seed xs idx)) []) (\<lambda>(r, s). Inr r))
                 [0..<length xs])
          (\<lambda>jacob. Inr (Jacob jacob)))"
  by (simp add: forward_get_value_def dual_forward_one dual_forward_many)

theorem forward_value_seeding_witness:
  "dual_forward (AutoDiff \<lparr>co_argcount = 1, returns = Single (BinOp OpMul (Var 0) (Const 2)),
       pkg_names = []\<rparr>) (Scalar 3)
     = Inr (Uni (One (DualV \<lparr>real_part = 6, dual_part = 2\<rparr>)))
   \<and> dual_forward (AutoDiff \<lparr>co_argcount = 2, returns = Single (BinOp OpMul (Var 0) (Var 1)),
       pkg_names = []\<rparr>) (Seq [3, 4])
     = Inr (Jacob [One (DualV \<lparr>real_part = 12, dual_part = 4\<rparr>),
                   One (DualV \<lparr>real_part = 12, dual_part = 3\<rparr>)])"
proof -
  let ?f1 = "\<lparr>co_argcount = 1, returns = Single (BinOp OpMul (Var 0) (Const 2)),
       pkg_names = []\<rparr>"
  let ?f2 = "\<lparr>co_argcount = 2, returns = Single (BinOp OpMul (Var 0) (Var 1)),
       pkg_names = []\<rparr>"
  have h1: "as_list (Scalar 3) = [3] \<and> co_argcount ?f1 = 1" by simp
  have h2: "length [3, 4 :: real] = co_argcount ?f2 \<and> length [3, 4 :: real] \<noteq> 1" by simp
  from forward_value_seeding [of ?f1 "Scalar 3" 3 "[]"] h1
  have 1: "dual_forward (AutoDiff ?f1) (Scalar 3) =
        bindE (call ?f1 [DualV \<lparr>real_part = 3, dual_part = 1\<rparr>] []) (\<lambda>(r, s). Inr (Uni r))"
    by blast
  from forward_value_seeding [of ?f2 "Seq []" 0 "[3, 4]"] h2
  have 2: "dual_forward (AutoDiff ?f2) (Seq [3, 4]) =
        bindE (mapE (\<lambda>idx. bindE (call ?f2 (map DualV (basis_seed [3, 4] idx)) [])
                  (\<lambda>(r, s). Inr r)) [0..<length [3, 4 :: real]])
          (\<lambda>jacob. Inr (Jacob jacob))"
    by blast
  show ?thesis
    unfolding 1 2 by (simp add: call_def basis_seed_def upt_rec)
qed

section \<open>Operations on nodes keep the graph invariant\<close>

lemma Node_extends: "extends s (s @ [\<lparr>node_real = v, partial_derivs = []\<rparr>])"
  by (simp add: extends_def nth_append)

lemma extends_append_deriv:
  assumes "extends s s1" and "z < length s"
  shows "extends s (append_deriv z (length s, p) s1)"
proof -
  from assms(1) have len: "length s1 = Suc (length s)" by (simp add: extends_def)
  show ?thesis
    unfolding extends_def
  proof (intro conjI allI impI)
    show "length (append_deriv z (length s, p) s1) = Suc (length s)"
      by (simp add: append_deriv_def len)
    show "partial_derivs (append_deriv z (length s, p) s1 ! length s) = []"
      using assms by (simp add: append_deriv_def extends_def)
  next
    fix i assume i: "i < length s"
    show "node_real (append_deriv z (length s, p) s1 ! i) = node_real (s ! i)"
      using assms i len by (simp add: append_deriv_def extends_def nth_list_update)
    from assms(1) i obtain es where es: "partial_derivs (s1 ! i) = partial_derivs (s ! i) @ es"
      "\<forall>e \<in> set es. fst e = length s"
      by (auto simp: extends_def)
    show "\<exists>es. partial_derivs (append_deriv z (length s, p) s1 ! i) = partial_derivs (s ! i) @ es
            \<and> (\<forall>e \<in> set es. fst e = length s)"
    proof (cases "i = z")
      case True
      then have "partial_derivs (append_deriv z (length s, p) s1 ! i)
          = partial_derivs (s ! i) @ (es @ [(length s, p)])"
        using es i len by (simp add: append_deriv_def)
      moreover have "\<forall>e \<in> set (es @ [(length s, p)]). fst e = length s"
        using es by simp
      ultimately show ?thesis by blast
    next
      case False
      then have "partial_derivs (append_deriv z (length s, p) s1 ! i) = partial_derivs (s ! i) @ es"
        using es by (simp add: append_deriv_def)
      with es show ?thesis by blast
    qed
  qed
qed

lemma node_binop_extends:
  "node_binop op a b s = Inr (child, s') \<Longrightarrow> a < length s \<Longrightarrow> valid_ref s b \<Longrightarrow>
   child = length s \<and> extends s s'"
  by (cases op; cases b)
     (auto simp: bindE_eq_Inr Node_def intro!: extends_append_deriv Node_extends)

lemma node_rbinop_extends:
  "node_rbinop op a b s = Inr (child, s') \<Longrightarrow> a < length s \<Longrightarrow> valid_ref s b \<Longrightarrow>
   child = length s \<and> extends s s'"
  by (cases op; cases b)
     (auto simp: bindE_eq_Inr Node_def intro!: extends_append_deriv Node_extends)

lemma node_neg_extends:
  "node_neg a s = (child, s') \<Longrightarrow> a < length s \<Longrightarrow> child = length s \<and> extends s s'"
  by (auto simp: node_neg_def Node_def intro!: extends_append_deriv Node_extends)

lemma call_elem_extends:
  "call_elem f (NodeV a) s = Inr (r, s') \<Longrightarrow> a < length s \<Longrightarrow>
   r = NodeV (length s) \<and> extends s s'"
  by (cases f)
     (auto simp: bindE_eq_Inr Node_def intro!: extends_append_deriv Node_extends)

lemma extends_wf:
  assumes "extends s s'" and "wf_store s"
  shows "wf_store s'"
  unfolding wf_store_def
proof (intro allI impI ballI)
  fix i e assume i: "i < length s'" and e: "e \<in> set (partial_derivs (s' ! i))"
  from assms(1) have len: "length s' = Suc (length s)" by (simp add: extends_def)
  show "i < fst e \<and> fst e < length s'"
  proof (cases "i < length s")
    case True
    with assms(1) obtain es where es: "partial_derivs (s' ! i) = partial_derivs (s ! i) @ es"
      "\<forall>e \<in> set es. fst e = length s"
      by (auto simp: extends_def)
    from e es have "e \<in> set (partial_derivs (s ! i)) \<or> e \<in> set es" by simp
    then show ?thesis
    proof
      assume "e \<in> set (partial_derivs (s ! i))"
      with assms(2) True have "i < fst e \<and> fst e < length s" by (simp add: wf_store_def)
      with len show ?thesis by simp
    next
      assume "e \<in> set es"
      with es have "fst e = length s" by simp
      with True len show ?thesis by simp
    qed
  next
    case False
    with i len have "i = length s" by simp
    with assms(1) e show ?thesis by (simp add: extends_def)
  qed
qed

lemma wf_walk_increases:
  "wf_store s \<Longrightarrow> walk s a p = Some (b, w) \<Longrightarrow> p \<noteq> [] \<Longrightarrow> a < b"
proof (induction p arbitrary: a w)
  case Nil
  then show ?case by simp
next
  case (Cons i rest)
  from Cons.prems(2) have a: "a < length s" and i: "i < length (partial_derivs (s ! a))"
    by (auto split: if_splits)
  obtain c q where cq: "partial_derivs (s ! a) ! i = (c, q)" by (cases "partial_derivs (s ! a) ! i")
  with i have "(c, q) \<in> set (partial_derivs (s ! a))" by (metis nth_mem)
  with Cons.prems(1) a have ac: "a < c" by (fastforce simp: wf_store_def)
  from Cons.prems(2) a i cq obtain w' where w': "walk s c rest = Some (b, w')"
    by (auto split: if_splits)
  show ?case
  proof (cases rest)
    case Nil
    with w' ac show ?thesis by simp
  next
    case (Cons j rest')
    with Cons.IH [OF Cons.prems(1) w'] ac show ?thesis by simp
  qed
qed

lemma wf_acyclic: "wf_store s \<Longrightarrow> acyclic_store s"
  by (auto simp: acyclic_store_def paths_def dest: wf_walk_increases)

lemma unary_neg_step:
  "unary_neg v s = Inr (r, s') \<Longrightarrow> valid_ref s v \<Longrightarrow> step s s' r"
  by (cases v) (auto simp: step_def dest: node_neg_extends split: prod.splits)

lemma binary_step:
  "binary op x y s = Inr (r, s') \<Longrightarrow> valid_ref s x \<Longrightarrow> valid_ref s y \<Longrightarrow> step s s' r"
  by (cases "(op, x, y, s)" rule: binary.cases)
     (auto simp: step_def bindE_eq_Inr dest: node_binop_extends node_rbinop_extends)

lemma call_elem_step:
  "call_elem f v s = Inr (r, s') \<Longrightarrow> valid_ref s v \<Longrightarrow> step s s' r"
proof (cases v)
  case (NodeV a)
  assume "call_elem f v s = Inr (r, s')" "valid_ref s v"
  with NodeV show ?thesis by (auto simp: step_def dest: call_elem_extends)
next
  case (Num a)
  assume "call_elem f v s = Inr (r, s')"
  with Num show ?thesis by (cases f) (auto simp: step_def bindE_eq_Inr)
next
  case (DualV d)
  assume "call_elem f v s = Inr (r, s')"
  with DualV show ?thesis by (cases f) (auto simp: step_def bindE_eq_Inr)
next
  case Other
  assume "call_elem f v s = Inr (r, s')"
  with Other show ?thesis by (cases f) auto
qed

lemma grows_refl: "grows s s"
  by (simp add: grows_def)

lemma grows_trans: "grows s s1 \<Longrightarrow> grows s1 s2 \<Longrightarrow> grows s s2"
  by (auto simp: grows_def)

lemma step_grows: "step s s' r \<Longrightarrow> grows s s' \<and> valid_ref s' r"
  by (cases r) (auto simp: step_def grows_def extends_def)

lemma step_wf: "step s s' r \<Longrightarrow> wf_store s \<Longrightarrow> wf_store s'"
  by (auto simp: step_def dest: extends_wf)

lemma valid_ref_grows: "valid_ref s v \<Longrightarrow> grows s s' \<Longrightarrow> valid_ref s' v"
  by (cases v) (auto simp: grows_def)

lemma eval_grows:
  "eval lib args e s = Inr (v, s') \<Longrightarrow> wf_store s \<Longrightarrow> \<forall>a \<in> set args. valid_ref s a \<Longrightarrow>
   wf_store s' \<and> grows s s' \<and> valid_ref s' v"
proof (induction e arbitrary: s v s')
  case (Var i)
  then show ?case by (auto simp: grows_refl split: if_splits)
next
  case (Const c)
  then show ?case by (auto simp: grows_refl)
next
  case (Neg e)
  from Neg.prems(1) obtain v1 s1 where e: "eval lib args e s = Inr (v1, s1)"
    and n: "unary_neg v1 s1 = Inr (v, s')"
    by (auto simp: bindE_eq_Inr)
  from Neg.IH [OF e Neg.prems(2,3)] have 1: "wf_store s1" "grows s s1" "valid_ref s1 v1" by simp_all
  from unary_neg_step [OF n 1(3)] have st: "step s1 s' v" .
  from step_grows [OF st] step_wf [OF st 1(1)] 1(2) show ?case
    by (auto intro: grows_trans)
next
  case (BinOp op l r)
  from BinOp.prems(1) obtain a s1 b s2 where l: "eval lib args l s = Inr (a, s1)"
    and r: "eval lib args r s1 = Inr (b, s2)" and b: "binary op a b s2 = Inr (v, s')"
    by (auto simp: bindE_eq_Inr)
  from BinOp.IH(1) [OF l BinOp.prems(2,3)]
  have 1: "wf_store s1" "grows s s1" "valid_ref s1 a" by simp_all
  have args1: "\<forall>a \<in> set args. valid_ref s1 a"
    using BinOp.prems(3) 1(2) by (auto intro: valid_ref_grows)
  from BinOp.IH(2) [OF r 1(1) args1]
  have 2: "wf_store s2" "grows s1 s2" "valid_ref s2 b" by simp_all
  have a2: "valid_ref s2 a" using 1(3) 2(2) by (rule valid_ref_grows)
  from binary_step [OF b a2 2(3)] have st: "step s2 s' v" .
  from step_grows [OF st] step_wf [OF st 2(1)] 1(2) 2(2) show ?case
    by (auto intro: grows_trans)
next
  case (Call f e)
  from Call.prems(1) obtain v1 s1 where e: "eval lib args e s = Inr (v1, s1)"
    and c: "call_elem f v1 s1 = Inr (v, s')"
    by (auto simp: bindE_eq_Inr split: if_splits)
  from Call.IH [OF e Call.prems(2,3)] have 1: "wf_store s1" "grows s s1" "valid_ref s1 v1" by simp_all
  from call_elem_step [OF c 1(3)] have st: "step s1 s' v" .
  from step_grows [OF st] step_wf [OF st 1(1)] 1(2) show ?case
    by (auto intro: grows_trans)
qed

lemma dual_binop_node: "is_node y \<Longrightarrow> dual_binop op a y = Inr v \<Longrightarrow> False"
  by (cases op; cases y) auto

text \<open>
  C7. Negation of a node, a binary operator with a node among its operands and a library
  function on a node each allocate exactly one node, which they return, change the value
  of no node, and append to the existing nodes only edges to the new node; so a graph
  whose edges point to later nodes stays such a graph and has no cycle. The same holds
  along the evaluation of a whole expression.
\<close>

theorem node_operations_preserve_graph:
  "(a < length s \<and> unary_neg (NodeV a) s = Inr (r, s') \<longrightarrow>
      r = NodeV (length s) \<and> extends s s' \<and> (wf_store s \<longrightarrow> wf_store s' \<and> acyclic_store s'))
   \<and> ((is_node x \<or> is_node y) \<and> valid_ref s x \<and> valid_ref s y
        \<and> binary op x y s = Inr (r, s') \<longrightarrow>
      r = NodeV (length s) \<and> extends s s' \<and> (wf_store s \<longrightarrow> wf_store s' \<and> acyclic_store s'))
   \<and> (a < length s \<and> call_elem f (NodeV a) s = Inr (r, s') \<longrightarrow>
      r = NodeV (length s) \<and> extends s s' \<and> (wf_store s \<longrightarrow> wf_store s' \<and> acyclic_store s'))
   \<and> (wf_store s \<and> (\<forall>v \<in> set args. valid_ref s v) \<and> eval lib args e s = Inr (r, s') \<longrightarrow>
      wf_store s' \<and> acyclic_store s' \<and> length s \<le> length s'
      \<and> (\<forall>i < length s. node_real (s' ! i) = node_real (s ! i)))"
proof -
  have ext: "wf_store s \<longrightarrow> wf_store s' \<and> acyclic_store s'" if "extends s s'"
    using that by (auto dest: extends_wf wf_acyclic)
  have 1: "r = NodeV (length s) \<and> extends s s'"
    if "a < length s \<and> unary_neg (NodeV a) s = Inr (r, s')"
    using that by (auto dest: node_neg_extends split: prod.splits)
  have 2: "r = NodeV (length s) \<and> extends s s'"
    if h: "(is_node x \<or> is_node y) \<and> valid_ref s x \<and> valid_ref s y
        \<and> binary op x y s = Inr (r, s')"
  proof -
    from h have "step s s' r" by (auto dest: binary_step)
    moreover have "s' \<noteq> s \<or> is_node r"
      using h by (cases "(op, x, y, s)" rule: binary.cases)
        (auto simp: bindE_eq_Inr dest: dual_binop_node)
    ultimately show ?thesis by (auto simp: step_def extends_def)
  qed
  have 3: "r = NodeV (length s) \<and> extends s s'"
    if "a < length s \<and> call_elem f (NodeV a) s = Inr (r, s')"
    using that by (auto dest: call_elem_extends)
  have 4: "wf_store s' \<and> acyclic_store s' \<and> length s \<le> length s'
      \<and> (\<forall>i < length s. node_real (s' ! i) = node_real (s ! i))"
    if "wf_store s \<and> (\<forall>v \<in> set args. valid_ref s v) \<and> eval lib args e s = Inr (r, s')"
    using that eval_grows [of lib args e s r s'] by (auto simp: grows_def dest: wf_acyclic)
  from 1 2 3 4 ext show ?thesis by blast
qed


theorem node_operations_preserve_graph_witness:
  "wf_store [\<lparr>node_real = 2, partial_derivs = []\<rparr>]
   \<and> binary OpMul (NodeV 0) (NodeV 0) [\<lparr>node_real = 2, partial_derivs = []\<rparr>] =
       Inr (NodeV 1, [\<lparr>node_real = 2, partial_derivs = [(1, 2), (1, 2)]\<rparr>,
                      \<lparr>node_real = 4, partial_derivs = []\<rparr>])
   \<and> extends [\<lparr>node_real = 2, partial_derivs = []\<rparr>]
         [\<lparr>node_real = 2, partial_derivs = [(1, 2), (1, 2)]\<rparr>,
          \<lparr>node_real = 4, partial_derivs = []\<rparr>]
   \<and> wf_store [\<lparr>node_real = 2, partial_derivs = [(1, 2), (1, 2)]\<rparr>,
                \<lparr>node_real = 4, partial_derivs = []\<rparr>]
   \<and> acyclic_store [\<lparr>node_real = 2, partial_derivs = [(1, 2), (1, 2)]\<rparr>,
                     \<lparr>node_real = 4, partial_derivs = []\<rparr>]"
  using node_operations_preserve_graph
    [where s = "[\<lparr>node_real = 2, partial_derivs = []\<rparr>]" and a = 0 and x = "NodeV 0"
       and y = "NodeV 0" and op = OpMul and r = "NodeV 1"
       and s' = "[\<lparr>node_real = 2, partial_derivs = [(1, 2), (1, 2)]\<rparr>,
                  \<lparr>node_real = 4, partial_derivs = []\<rparr>]"
       and f = Sin and args = "[]" and lib = True and e = "Const 0"]
  by (simp add: Node_def append_deriv_def wf_store_def)

section \<open>The gradient pass computes path sums\<close>

lemma walk_Cons_Some:
  "walk s a (i # q) = Some (b, w) \<longleftrightarrow>
     a < length s \<and> i < length (partial_derivs (s ! a))
     \<and> (\<exists>w'. walk s (fst (partial_derivs (s ! a) ! i)) q = Some (b, w')
            \<and> w = snd (partial_derivs (s ! a) ! i) * w')"
  by (cases "partial_derivs (s ! a) ! i") auto

lemma path_weight_Nil: "path_weight s a [] = 1"
  by (simp add: path_weight_def)

lemma path_weight_Cons:
  "a < length s \<Longrightarrow> i < length (partial_derivs (s ! a)) \<Longrightarrow>
   path_weight s a (i # q) =
     snd (partial_derivs (s ! a) ! i) * path_weight s (fst (partial_derivs (s ! a) ! i)) q"
  by (cases "partial_derivs (s ! a) ! i"; cases "walk s (fst (partial_derivs (s ! a) ! i)) q")
     (auto simp: path_weight_def)

lemma paths_decomp:
  "a < length s \<Longrightarrow>
   paths s a b =
     (\<Union>i \<in> {0..<length (partial_derivs (s ! a))}.
        (#) i ` walks s (fst (partial_derivs (s ! a) ! i)) b)"
proof (intro set_eqI iffI)
  fix p assume a: "a < length s" and "p \<in> paths s a b"
  then obtain w where p: "p \<noteq> []" "walk s a p = Some (b, w)" by (auto simp: paths_def)
  then obtain i q where iq: "p = i # q" by (cases p) auto
  with p(2) have "i < length (partial_derivs (s ! a))"
    and "q \<in> walks s (fst (partial_derivs (s ! a) ! i)) b"
    by (auto simp: walk_Cons_Some walks_def simp del: walk.simps)
  with iq show "p \<in> (\<Union>i \<in> {0..<length (partial_derivs (s ! a))}.
        (#) i ` walks s (fst (partial_derivs (s ! a) ! i)) b)"
    by auto
next
  fix p assume a: "a < length s" and "p \<in> (\<Union>i \<in> {0..<length (partial_derivs (s ! a))}.
        (#) i ` walks s (fst (partial_derivs (s ! a) ! i)) b)"
  then obtain i q where i: "i < length (partial_derivs (s ! a))" and pq: "p = i # q"
    and q: "q \<in> walks s (fst (partial_derivs (s ! a) ! i)) b"
    by auto
  from q obtain w' where "walk s (fst (partial_derivs (s ! a) ! i)) q = Some (b, w')"
    by (auto simp: walks_def)
  with a i have "walk s a (i # q) = Some (b, snd (partial_derivs (s ! a) ! i) * w')"
    by (simp add: walk_Cons_Some del: walk.simps)
  with pq show "p \<in> paths s a b" by (auto simp: paths_def)
qed

lemma paths_out: "\<not> a < length s \<Longrightarrow> paths s a b = {}"
proof -
  assume a: "\<not> a < length s"
  have "walk s a p \<noteq> Some (b, w)" if "p \<noteq> []" for p w
    using that a by (cases p) auto
  then show ?thesis by (auto simp: paths_def)
qed

lemma walks_paths: "walks s a b = (if a = b then {[]} else {}) \<union> paths s a b"
proof -
  have "p \<in> walks s a b \<longleftrightarrow> p \<in> (if a = b then {[]} else {}) \<union> paths s a b" for p
    by (cases p) (auto simp: walks_def paths_def)
  then show ?thesis by blast
qed

lemma Nil_notin_paths: "[] \<notin> paths s a b"
  by (simp add: paths_def)

lemma finite_paths: "wf_store s \<Longrightarrow> finite (paths s a b)"
proof (induction "length s - a" arbitrary: a rule: less_induct)
  case less
  show ?case
  proof (cases "a < length s")
    case False
    then show ?thesis by (simp add: paths_out)
  next
    case True
    have "finite (walks s (fst (partial_derivs (s ! a) ! i)) b)"
      if i: "i < length (partial_derivs (s ! a))" for i
    proof -
      from i have "partial_derivs (s ! a) ! i \<in> set (partial_derivs (s ! a))" by simp
      with less.prems True have "a < fst (partial_derivs (s ! a) ! i)"
        and "fst (partial_derivs (s ! a) ! i) < length s"
        by (auto simp: wf_store_def)
      then have "length s - fst (partial_derivs (s ! a) ! i) < length s - a" by simp
      from less.hyps [OF this less.prems]
      show ?thesis by (simp add: walks_paths)
    qed
    then show ?thesis by (simp add: paths_decomp [OF True])
  qed
qed

lemma finite_walks: "wf_store s \<Longrightarrow> finite (walks s a b)"
  by (simp add: walks_paths finite_paths)

lemma walks_sum:
  "wf_store s \<Longrightarrow>
   (\<Sum>p \<in> walks s a b. path_weight s a p) = (if a = b then 1 else 0) + path_sum s a b"
  by (simp add: walks_paths path_sum_def finite_paths Nil_notin_paths path_weight_Nil)

lemma path_sum_decomp:
  assumes wf: "wf_store s" and a: "a < length s"
  shows "path_sum s a b =
    (\<Sum>i = 0..<length (partial_derivs (s ! a)).
       snd (partial_derivs (s ! a) ! i)
         * ((if fst (partial_derivs (s ! a) ! i) = b then 1 else 0)
            + path_sum s (fst (partial_derivs (s ! a) ! i)) b))"
proof -
  let ?es = "partial_derivs (s ! a)"
  let ?W = "\<lambda>i. walks s (fst (?es ! i)) b"
  have "path_sum s a b = sum (path_weight s a) (\<Union>i \<in> {0..<length ?es}. (#) i ` ?W i)"
    by (simp add: path_sum_def paths_decomp [OF a])
  also have "\<dots> = (\<Sum>i = 0..<length ?es. sum (path_weight s a) ((#) i ` ?W i))"
    by (rule sum.UNION_disjoint) (auto simp: finite_walks [OF wf])
  also have "\<dots> = (\<Sum>i = 0..<length ?es. \<Sum>q \<in> ?W i. path_weight s a (i # q))"
    by (simp add: sum.reindex)
  also have "\<dots> = (\<Sum>i = 0..<length ?es. \<Sum>q \<in> ?W i.
      snd (?es ! i) * path_weight s (fst (?es ! i)) q)"
    by (rule sum.cong) (simp_all add: path_weight_Cons [OF a])
  also have "\<dots> = (\<Sum>i = 0..<length ?es.
      snd (?es ! i) * (\<Sum>q \<in> ?W i. path_weight s (fst (?es ! i)) q))"
    by (simp add: sum_distrib_left)
  finally show ?thesis by (simp add: walks_sum [OF wf])
qed

lemma path_sum_edges:
  assumes wf: "wf_store s" and a: "a < length s"
  shows "path_sum s a b =
    (\<Sum>e \<leftarrow> partial_derivs (s ! a).
       snd e * ((if fst e = b then 1 else 0) + path_sum s (fst e) b))"
proof -
  have "(\<Sum>e \<leftarrow> partial_derivs (s ! a).
       snd e * ((if fst e = b then 1 else 0) + path_sum s (fst e) b))
    = (\<Sum>i = 0..<length (partial_derivs (s ! a)).
         snd (partial_derivs (s ! a) ! i)
           * ((if fst (partial_derivs (s ! a) ! i) = b then 1 else 0)
              + path_sum s (fst (partial_derivs (s ! a) ! i)) b))"
    by (simp add: sum_list_sum_nth)
  then show ?thesis by (simp add: path_sum_decomp [OF wf a])
qed

lemma calc_children_correct:
  assumes node: "\<And>r st g. r < length s \<Longrightarrow> length s - r \<le> k \<Longrightarrow>
      calc_grad k s r st g = Some (\<lambda>n. g n + st * path_sum s r n)"
  shows "\<forall>e \<in> set es. fst e < length s \<and> length s - fst e \<le> k \<Longrightarrow>
      calc_children k s es st g = Some (\<lambda>n. g n + st * edge_sum s es n)"
proof (induction es arbitrary: g)
  case Nil
  then show ?case by (simp add: edge_sum_def)
next
  case (Cons e rest)
  obtain c p where e: "e = (c, p)" by (cases e)
  with Cons.prems have c: "c < length s" "length s - c \<le> k" by auto
  have rest: "\<forall>e \<in> set rest. fst e < length s \<and> length s - fst e \<le> k"
    using Cons.prems by simp
  show ?case
    by (simp add: e node [OF c] Cons.IH [OF rest] edge_sum_def fun_eq_iff algebra_simps)
qed

lemma calc_grad_correct:
  assumes wf: "wf_store s"
  shows "r < length s \<Longrightarrow> length s - r \<le> k \<Longrightarrow>
      calc_grad k s r st g = Some (\<lambda>n. g n + st * path_sum s r n)"
proof (induction k arbitrary: r st g)
  case 0
  then show ?case by simp
next
  case (Suc k)
  have children: "\<forall>e \<in> set (partial_derivs (s ! r)). fst e < length s \<and> length s - fst e \<le> k"
  proof
    fix e assume "e \<in> set (partial_derivs (s ! r))"
    with wf Suc.prems(1) have "r < fst e" "fst e < length s" by (auto simp: wf_store_def)
    with Suc.prems(2) show "fst e < length s \<and> length s - fst e \<le> k" by simp
  qed
  have "calc_children k s (partial_derivs (s ! r)) st g
      = Some (\<lambda>n. g n + st * edge_sum s (partial_derivs (s ! r)) n)"
    by (rule calc_children_correct [OF Suc.IH children])
  moreover have "edge_sum s (partial_derivs (s ! r)) n = path_sum s r n" for n
    by (simp add: edge_sum_def path_sum_edges [OF wf Suc.prems(1)])
  ultimately show ?case using Suc.prems(1) by simp
qed

text \<open>
  C3. On a graph whose edges point to later nodes, hence acyclic, the gradient pass from
  a root returns: its recursion ends, and the entry of each node \<open>n\<close> is the sum, over
  all directed edge-paths of at least one edge from the root to \<open>n\<close>, of the product of
  the local partials along the path; a node no path reaches keeps the default 0. More
  generally the pass started with weight \<open>st\<close> on accumulated entries \<open>g\<close> adds to each
  entry \<open>st\<close> times that sum, whatever depth of recursion is allowed beyond the number of
  nodes from the root on.
\<close>

theorem gradient_is_path_sum:
  "wf_store s \<and> r < length s \<longrightarrow>
     gradiant s r = Inr (\<lambda>n. path_sum s r n)
     \<and> (\<forall>depth. length s - r \<le> depth \<longrightarrow>
          calc_grad depth s r st g = Some (\<lambda>n. g n + st * path_sum s r n))"
  by (simp add: gradiant_def calc_grad_correct)


theorem gradient_is_path_sum_witness:
  "wf_store [\<lparr>node_real = 2, partial_derivs = [(1, 2), (1, 2)]\<rparr>,
             \<lparr>node_real = 4, partial_derivs = []\<rparr>]
   \<and> gradiant [\<lparr>node_real = 2, partial_derivs = [(1, 2), (1, 2)]\<rparr>,
                \<lparr>node_real = 4, partial_derivs = []\<rparr>] 0
     = Inr (\<lambda>n. path_sum [\<lparr>node_real = 2, partial_derivs = [(1, 2), (1, 2)]\<rparr>,
                             \<lparr>node_real = 4, partial_derivs = []\<rparr>] 0 n)
   \<and> path_sum [\<lparr>node_real = 2, partial_derivs = [(1, 2), (1, 2)]\<rparr>,
                \<lparr>node_real = 4, partial_derivs = []\<rparr>] 0 1 = 4"
proof -
  let ?s = "[\<lparr>node_real = 2, partial_derivs = [(1, 2), (1, 2)]\<rparr>,
             \<lparr>node_real = 4, partial_derivs = []\<rparr>]"
  have wf: "wf_store ?s" by (auto simp: wf_store_def less_Suc_eq)
  have g: "gradiant ?s 0 = Inr (\<lambda>n. path_sum ?s 0 n)"
    using gradient_is_path_sum [of ?s 0 1 "\<lambda>_. 0"] wf by simp
  have e: "gradiant ?s 0 = Inr (\<lambda>n. if n = 1 then 4 else 0)"
    by (simp add: gradiant_def numeral_2_eq_2 fun_eq_iff)
  from g e have "(Inr (\<lambda>n. path_sum ?s 0 n) :: error + (nat \<Rightarrow> real))
      = Inr (\<lambda>n. if n = 1 then 4 else 0)"
    by (rule trans [OF sym])
  then have "(\<lambda>n. path_sum ?s 0 n) = (\<lambda>n. if n = 1 then (4::real) else 0)"
    by (simp only: sum.inject)
  then have "path_sum ?s 0 1 = (if (1::nat) = 1 then 4 else 0)" by (rule fun_cong)
  then have p: "path_sum ?s 0 1 = 4" by simp
  show ?thesis by (rule conjI [OF wf conjI [OF g p]])
qed

section \<open>Forward and reverse derivatives of the library functions\<close>

lemma call_elem_dual_defined:
  "elem_defined f (real_part z) \<Longrightarrow>
   call_elem f (DualV z) s =
     Inr (DualV \<lparr>real_part = elem_value f (real_part z),
                 dual_part = elem_deriv f (real_part z) * dual_part z\<rparr>, s)"
  by (cases f) (simp_all add: py_div_nonzero logistic_f_def log_def mult.commute)

lemma call_elem_node_defined:
  "n < length s \<Longrightarrow> elem_defined f (node_real (s ! n)) \<Longrightarrow>
   call_elem f (NodeV n) s =
     Inr (NodeV (length s),
          s[n := (s ! n)\<lparr>partial_derivs :=
                 partial_derivs (s ! n) @ [(length s, elem_deriv f (node_real (s ! n)))]\<rparr>]
            @ [\<lparr>node_real = elem_value f (node_real (s ! n)), partial_derivs = []\<rparr>])"
  by (cases f)
     (simp_all add: Node_def append_deriv_Node py_div_nonzero py_pow_minus_half
        logistic_f_def log_def mult.commute)

lemma forward_library_function:
  "elem_defined f x \<Longrightarrow>
   forward (AutoDiff (library_function f)) (Seq [x]) = Inr (Number (elem_deriv f x))"
  by (simp add: forward_def dual_forward_def AutoDiff_def library_function_def call_def
        Dual_def call_elem_dual_defined dual_components_def)

lemma reverse_library_function:
  "elem_defined f x \<Longrightarrow>
   reverse (AutoDiff (library_function f)) (Seq [x]) = Inr (Number (elem_deriv f x))"
  by (simp add: reverse_def AutoDiff_def library_function_def call_def Node_def
        call_elem_node_defined gradiant_def numeral_2_eq_2)

lemma elem_deriv_is_derivative:
  "elem_defined f x \<Longrightarrow> ((\<lambda>z. elem_value f z) has_real_derivative elem_deriv f x) (at x)"
proof (cases f)
  case Sin
  then show ?thesis by (auto intro!: derivative_eq_intros)
next
  case Cos
  then show ?thesis by (auto intro!: derivative_eq_intros)
next
  case Tan
  assume "elem_defined f x"
  with Tan have "cos x \<noteq> 0" by simp
  from DERIV_tan [OF this] Tan show ?thesis by (simp add: inverse_eq_divide)
next
  case Exp
  then show ?thesis by (auto intro!: derivative_eq_intros)
next
  case Sqrt
  assume "elem_defined f x"
  with Sqrt have "0 < x" by simp
  from DERIV_real_sqrt [OF this] Sqrt show ?thesis by (simp add: inverse_eq_divide mult.commute)
next
  case Log
  assume "elem_defined f x"
  with Log have "0 < x" by simp
  from DERIV_ln [OF this] Log show ?thesis by (simp add: inverse_eq_divide)
next
  case (Logb base)
  assume "elem_defined f x"
  with Logb have "0 < x" by simp
  from DERIV_log [OF this, of base] Logb show ?thesis by (simp add: mult.commute)
next
  case Arcsin
  assume "elem_defined f x"
  with Arcsin have "- 1 < x" "x < 1" by simp_all
  from DERIV_arcsin [OF this] Arcsin show ?thesis by (simp add: inverse_eq_divide)
next
  case Arccos
  assume "elem_defined f x"
  with Arccos have "- 1 < x" "x < 1" by simp_all
  from DERIV_arccos [OF this] Arccos show ?thesis by (simp add: inverse_eq_divide)
next
  case Arctan
  from DERIV_arctan [of x] Arctan show ?thesis by (simp add: inverse_eq_divide)
next
  case Sinh
  then show ?thesis by (auto intro!: derivative_eq_intros)
next
  case Cosh
  then show ?thesis by (auto intro!: derivative_eq_intros)
next
  case Tanh
  have "cosh x \<noteq> 0" using cosh_real_pos [of x] by simp
  then have "(tanh has_real_derivative 1 - (tanh x)\<^sup>2) (at x)"
    by (auto intro!: derivative_eq_intros)
  with Tanh show ?thesis by simp
next
  case Logistic
  have pos: "1 + exp (- x) \<noteq> 0" using exp_gt_zero [of "- x"] by linarith
  have "((\<lambda>z. 1 / (1 + exp (- z))) has_real_derivative
      (1 / (1 + exp (- x))) * (1 - 1 / (1 + exp (- x)))) (at x)"
    using pos by (auto intro!: derivative_eq_intros simp: field_simps power2_eq_square)
  with Logistic show ?thesis by simp
qed

text \<open>
  C4. For every library function \<open>f\<close> and every point \<open>x\<close> at which \<open>f\<close> and its listed
  derivative are defined, the forward engine and the reverse engine, given the function
  \<open>lambda x: ef.f(x)\<close> and the input \<open>[x]\<close>, both return the closed form \<open>f'(x)\<close>, and
  that closed form is the derivative of \<open>f\<close> at \<open>x\<close>.
\<close>

theorem forward_reverse_closed_form:
  "elem_defined f x \<longrightarrow>
     forward (AutoDiff (library_function f)) (Seq [x]) = Inr (Number (elem_deriv f x))
     \<and> reverse (AutoDiff (library_function f)) (Seq [x]) = Inr (Number (elem_deriv f x))
     \<and> ((\<lambda>z. elem_value f z) has_real_derivative elem_deriv f x) (at x)"
  by (simp add: forward_library_function reverse_library_function elem_deriv_is_derivative)

theorem forward_reverse_closed_form_witness:
  "forward (AutoDiff (library_function Sqrt)) (Seq [4]) = Inr (Number (1 / 4))
   \<and> reverse (AutoDiff (library_function Sqrt)) (Seq [4]) = Inr (Number (1 / 4))"
  using forward_reverse_closed_form [of Sqrt 4] by simp

section \<open>The shape of the derivative\<close>

lemma mapE_Inr:
  "mapE g xs = Inr ys \<Longrightarrow> list_all2 (\<lambda>x y. g x = Inr y) xs ys"
  by (induction xs arbitrary: ys) (auto simp: bindE_eq_Inr)

lemma mapE_length: "mapE g xs = Inr ys \<Longrightarrow> length ys = length xs"
  by (drule mapE_Inr) (simp add: list_all2_lengthD)

lemma eval_list_length:
  "eval_list lib args es s = Inr (vs, s') \<Longrightarrow> length vs = length es"
  by (induction es arbitrary: s vs s') (auto simp: bindE_eq_Inr)

lemma call_ret: "call f args s = Inr (r, s') \<Longrightarrow> ret_of (returns f) r"
  by (auto simp: call_def bindE_eq_Inr dest: eval_list_length split: if_splits body.splits)

lemma passes_ret:
  "passes f duals idxs = Inr jacob \<Longrightarrow>
   length jacob = length idxs \<and> (\<forall>r \<in> set jacob. ret_of (returns f) r)"
  by (induction idxs arbitrary: duals jacob)
     (auto simp: bindE_eq_Inr Let_def dest: call_ret)

lemma make_nodes_length: "make_nodes xs s = (nodes, s') \<Longrightarrow> length nodes = length xs"
  by (induction xs arbitrary: s nodes s') (auto simp: Node_def split: prod.splits)

lemma attrs_length:
  "attrs attr r = Inr row \<Longrightarrow> ret_of (Multi es) r \<Longrightarrow> length row = length es"
  by (cases r) (auto dest: mapE_length)

lemma rows_rect:
  assumes "mapE (attrs attr) jacob = Inr rows" and "\<forall>r \<in> set jacob. ret_of (Multi es) r"
  shows "length rows = length jacob \<and> (\<forall>i < length rows. length (rows ! i) = length es)"
proof -
  from assms(1) have l2: "list_all2 (\<lambda>r row. attrs attr r = Inr row) jacob rows"
    by (rule mapE_Inr)
  then have len: "length rows = length jacob" by (simp add: list_all2_lengthD)
  have "length (rows ! i) = length es" if i: "i < length rows" for i
  proof -
    from l2 i len have "attrs attr (jacob ! i) = Inr (rows ! i)"
      by (simp add: list_all2_conv_all_nth)
    moreover from i len assms(2) have "ret_of (Multi es) (jacob ! i)" by simp
    ultimately show ?thesis by (rule attrs_length)
  qed
  with len show ?thesis by simp
qed

lemma transpose_shape:
  assumes "rows \<noteq> []" and "\<forall>i < length rows. length (rows ! i) = M"
  shows "length (transpose rows) = M
    \<and> list_all (\<lambda>row. length row = length rows) (transpose rows)"
proof -
  have "transpose rows = map (\<lambda>i. map (\<lambda>j. rows ! j ! i) [0..<length rows]) [0..<M]"
    using assms by (intro transpose_rectangle) simp_all
  then show ?thesis by (simp add: list_all_iff)
qed

lemma is_Dual_ret: "is_Dual r \<Longrightarrow> \<exists>d. r = One (DualV d)"
  by (cases r rule: is_Dual.cases) simp_all

lemma forward_shape:
  assumes "forward (AutoDiff f) inputs = Inr v"
  shows "has_shape (returns f) (co_argcount f) v"
proof -
  from assms obtain result where df: "dual_forward (AutoDiff f) inputs = Inr result"
    and dc: "dual_components result = Inr v"
    by (auto simp: forward_def bindE_eq_Inr)
  have n: "length (as_list inputs) = co_argcount f"
    using df by (auto simp: dual_forward_def AutoDiff_def Let_def split: if_splits)
  show ?thesis
  proof (cases result)
    case (Uni r)
    with df n have one: "co_argcount f = 1" and "ret_of (returns f) r"
      by (auto simp: dual_forward_def AutoDiff_def Let_def bindE_eq_Inr
            dest: call_ret split: if_splits)
    with dc Uni show ?thesis
      by (cases "returns f"; cases r)
         (auto simp: dual_components_def bindE_eq_Inr dest: mapE_length is_Dual_ret
            split: if_splits)
  next
    case (Jacob jacob)
    with df n have many: "co_argcount f \<noteq> 1" and len: "length jacob = co_argcount f"
      and rets: "\<forall>r \<in> set jacob. ret_of (returns f) r"
      by (auto simp: dual_forward_def AutoDiff_def Let_def bindE_eq_Inr
            dest: passes_ret split: if_splits)
    from dc Jacob obtain r0 rest where j: "jacob = r0 # rest"
      by (cases jacob) (auto simp: dual_components_def)
    show ?thesis
    proof (cases "returns f")
      case (Single e)
      with rets j obtain v0 where r0: "r0 = One v0" by (cases r0) auto
      show ?thesis
      proof (cases "is_Dual r0")
        case True
        with dc Jacob j obtain vs where "mapE (attr_one attr_dual) jacob = Inr vs" "v = Vector vs"
          by (auto simp: dual_components_def bindE_eq_Inr)
        with len many Single show ?thesis by (auto dest: mapE_length)
      next
        case False
        with dc Jacob j r0 show ?thesis
          by (auto simp: dual_components_def bindE_eq_Inr)
      qed
    next
      case (Multi es)
      with rets j have "\<not> is_Dual r0" by (cases r0) auto
      with dc Jacob j obtain rows where rows: "mapE (attrs attr_dual) jacob = Inr rows"
        and v: "v = Matrix (transpose rows)"
        by (auto simp: dual_components_def bindE_eq_Inr)
      from rows_rect [OF rows] rets Multi
      have r: "length rows = length jacob" "\<forall>i < length rows. length (rows ! i) = length es"
        by simp_all
      with j have "rows \<noteq> []" by auto
      from transpose_shape [OF this r(2)] r(1) len v many Multi show ?thesis by simp
    qed
  qed
qed


lemma AutoDiff_sel: "funcs (AutoDiff f) = f" "n_inputs (AutoDiff f) = co_argcount f"
  by (simp_all add: AutoDiff_def)

lemma jacob_rows_shape:
  "jacob_rows lib nodes s lst = Inr jacob \<Longrightarrow>
   length jacob = length lst \<and> (\<forall>row \<in> set jacob. length row = length nodes)"
proof (induction lst arbitrary: jacob)
  case Nil
  then show ?case by simp
next
  case (Cons piece rest)
  then show ?case
    by (cases piece) (auto simp: bindE_eq_Inr dest: mapE_length)
qed

lemma pieces_length: "length es \<le> length (concat (map pieces es))"
  by (induction es) (auto simp: pieces_def)

lemma concat_length_const:
  "\<forall>row \<in> set jacob. length row = k \<Longrightarrow> length (concat jacob) = k * length jacob"
  by (induction jacob) simp_all

lemma reverse_try_shape:
  assumes "reverse_try (AutoDiff f) inputs nodes s result = Inr v"
    and "length nodes = length inputs" and "length inputs = co_argcount f"
    and "ret_of (returns f) result"
  shows "has_shape (returns f) (co_argcount f) v"
proof -
  from assms(1) obtain vs where res: "result = Many vs"
    by (cases result) (auto simp: reverse_try_def)
  with assms(4) obtain es where es: "returns f = Multi es" and vs: "length vs = length es"
    by (cases "returns f") auto
  from assms(1) res es obtain jacob where
    rows: "jacob_rows (length (remdups (filter (\<lambda>name. name \<notin> set exclude_pkg) (pkg_names f))) = 1)
        nodes s (take (length vs) (concat (map pieces es))) = Inr jacob"
    and v: "v = (if length inputs = 1 then Vector (concat jacob) else Matrix jacob)"
    by (auto simp: reverse_try_def AutoDiff_sel Let_def bindE_eq_Inr split: if_splits)
  from jacob_rows_shape [OF rows] vs pieces_length [of es]
  have len: "length jacob = length es" and row: "\<forall>row \<in> set jacob. length row = length nodes"
    by simp_all
  show ?thesis
  proof (cases "length inputs = 1")
    case True
    with row assms(2) have "length (concat jacob) = length jacob"
      using concat_length_const [of jacob 1] by simp
    with True v len es assms(3) show ?thesis by simp
  next
    case False
    with v len row es assms(2,3) show ?thesis by (simp add: list_all_iff)
  qed
qed

lemma reverse_shape:
  assumes "reverse (AutoDiff f) inputs = Inr v"
  shows "has_shape (returns f) (co_argcount f) v"
proof -
  obtain nodes s0 where mk: "make_nodes (as_list inputs) [] = (nodes, s0)"
    by (cases "make_nodes (as_list inputs) []")
  from assms have n: "length (as_list inputs) = co_argcount f"
    by (auto simp: reverse_def AutoDiff_sel Let_def split: if_splits)
  from make_nodes_length [OF mk] have nodes: "length nodes = length (as_list inputs)" .
  from assms mk n obtain result s where
    c: "call f (map NodeV nodes) s0 = Inr (result, s)"
    and rest: "(case result of
          One (NodeV res) \<Rightarrow>
            (if length (as_list inputs) = 1 then
               bindE (grad_entry s (nodes ! 0) (NodeV res)) (\<lambda>v. Inr (Number v))
             else
               bindE (mapE (\<lambda>elem. grad_entry s elem (NodeV res)) nodes) (\<lambda>vs.
               Inr (Vector vs)))
        | _ \<Rightarrow> reverse_multi (AutoDiff f) (as_list inputs) nodes s result) = Inr v"
    by (auto simp: reverse_def AutoDiff_sel Let_def bindE_eq_Inr)
  from call_ret [OF c] have ret: "ret_of (returns f) result" .
  have multi: "has_shape (returns f) (co_argcount f) v"
    if "reverse_multi (AutoDiff f) (as_list inputs) nodes s result = Inr v"
  proof -
    from that have "reverse_try (AutoDiff f) (as_list inputs) nodes s result = Inr v"
      by (auto simp: reverse_multi_def split: sum.splits)
    from reverse_try_shape [OF this nodes n ret] show ?thesis .
  qed
  show ?thesis
  proof (cases result)
    case (Many vs)
    with rest multi show ?thesis by simp
  next
    case (One r)
    with ret obtain e where e: "returns f = Single e" by (cases "returns f") auto
    show ?thesis
    proof (cases r)
      case (NodeV res)
      with rest One e n nodes show ?thesis
        by (auto simp: bindE_eq_Inr dest: mapE_length split: if_splits)
    next
      case (Num a)
      with rest One multi show ?thesis by simp
    next
      case (DualV d)
      with rest One multi show ?thesis by simp
    next
      case Other
      with rest One multi show ?thesis by simp
    qed
  qed
qed

lemma derivative_shape:
  "(forward (AutoDiff f) inputs = Inr v \<longrightarrow> has_shape (returns f) (co_argcount f) v)
   \<and> (reverse (AutoDiff f) inputs = Inr v \<longrightarrow> has_shape (returns f) (co_argcount f) v)"
  by (simp add: forward_shape reverse_shape)

text \<open>
  C5. The derivative operation of both engines is claimed to return a result of the stated
  shape for every function and every input of the right length. Whenever one of them
  returns, the shape is the stated one (\<open>derivative_shape\<close> above). But the reverse engine
  does not return for a function of several outputs one of which calls \<open>logb(z, base)\<close>:
  it cuts the source of the returned list at every comma, also the one inside that call,
  and the evaluation of the fragment fails. For \<open>lambda x: [ef.logb(x, 2), x]\<close> at
  \<open>[2]\<close> the forward engine returns the vector of length 2 and the reverse engine's value
  operation returns the two values, while the reverse engine's derivative operation
  raises the error of its branch for several outputs.
\<close>

theorem reverse_logb_multi_output:
  "forward (AutoDiff logb_and_identity) (Seq [2]) = Inr (Vector [1 / (2 * ln 2), 1])
   \<and> reverse_get_value (AutoDiff logb_and_identity) (Seq [2]) = Inr (Vector [1, 2])
   \<and> reverse (AutoDiff logb_and_identity) (Seq [2]) = Inl MultiOutputParseFailure"
  by (simp add: forward_def dual_forward_def reverse_get_value_def reverse_def reverse_multi_def
        reverse_try_def AutoDiff_def logb_and_identity_def call_def Dual_def Node_def
        append_deriv_def dual_components_def pieces_def exclude_pkg_def)


section \<open>Errors of the reverse engine on a function of several outputs\<close>








lemma length_append_deriv [simp]: "length (append_deriv z e s) = length s"
  by (simp add: append_deriv_def)

lemma node_real_append_deriv [simp]: "node_real (append_deriv z e s ! i) = node_real (s ! i)"
  by (cases "z < length s"; cases "i = z") (simp_all add: append_deriv_def list_update_beyond)


lemma same_value_Num [simp]: "same_value s (Num a) t (Num b) = (a = b)"
  by (simp add: same_value_def)

lemma same_value_Node [simp]:
  "same_value s (NodeV n) t (NodeV m) =
     (n < length s \<and> m < length t \<and> node_real (s ! n) = node_real (t ! m))"
  by (simp add: same_value_def)























end
